theory Spec2Isabelle
  imports Main
begin

section \<open>The browser session\<close>

text \<open>
  The notebook drives a Chrome session through Selenium. Selenium is a library, so its
  driver is a parameter of the model: a record of the calls \<open>scrape_jobs\<close> makes, each a
  function of the browser's state \<open>'w\<close> that returns the new state together with either
  the exception the call raises (\<open>Inl\<close>) or its value (\<open>Inr\<close>). Nothing is assumed about
  what the calls answer.

  Of the exceptions, \<open>NoSuchElementException\<close> is the one the notebook catches;
  \<open>WebDriverException\<close> stands for every other exception of the driver (a lost session, a
  stale element, an intercepted click). \<open>TypeError\<close> and \<open>ValueError\<close> are Python's and
  pandas' own, \<open>OSError\<close> is what the file system raises.
\<close>

datatype exn = NoSuchElementException | WebDriverException | TypeError | ValueError | OSError

datatype By = XPATH | CLASS_NAME | LINK_TEXT | CSS_SELECTOR | TAG_NAME

type_synonym WebElement = nat

record 'w driver =
  find_element :: "By \<Rightarrow> string \<Rightarrow> 'w \<Rightarrow> (exn + WebElement) \<times> 'w"
  find_elements :: "By \<Rightarrow> string \<Rightarrow> 'w \<Rightarrow> (exn + WebElement list) \<times> 'w"
  element_find_element :: "WebElement \<Rightarrow> By \<Rightarrow> string \<Rightarrow> 'w \<Rightarrow> (exn + WebElement) \<times> 'w"
  element_text :: "WebElement \<Rightarrow> 'w \<Rightarrow> (exn + string) \<times> 'w"
  element_get_attribute :: "WebElement \<Rightarrow> string \<Rightarrow> 'w \<Rightarrow> (exn + string option) \<times> 'w"
  element_click :: "WebElement \<Rightarrow> 'w \<Rightarrow> (exn + unit) \<times> 'w"
  scroll_from_origin :: "WebElement \<Rightarrow> int \<Rightarrow> int \<Rightarrow> 'w \<Rightarrow> (exn + unit) \<times> 'w"
  time_passes :: "nat \<Rightarrow> 'w \<Rightarrow> 'w"

text \<open>
  Every call the script makes is written to a log, in order, so that a statement can
  count the scroll gestures, the lookups and the clicks of a run.
\<close>

datatype event =
    FindElement By string
  | FindElements By string
  | ElementFindElement WebElement By string
  | ElementText WebElement
  | GetAttribute WebElement string
  | Click WebElement
  | ScrollFromOrigin WebElement int int
  | Sleep nat
  | Print string

type_synonym 'w session = "'w \<times> event list"

type_synonym ('w, 'a) script = "'w session \<Rightarrow> (exn + 'a) \<times> 'w session"

definition returns :: "'a \<Rightarrow> ('w, 'a) script" where
  "returns a s = (Inr a, s)"

text \<open>Sequencing: an exception skips the rest.\<close>

fun continue :: "(exn + 'a) \<times> 's \<Rightarrow> ('a \<Rightarrow> 's \<Rightarrow> (exn + 'b) \<times> 's) \<Rightarrow> (exn + 'b) \<times> 's" where
  "continue (Inl e, s) k = (Inl e, s)"
| "continue (Inr a, s) k = k a s"

definition andthen :: "('w, 'a) script \<Rightarrow> ('a \<Rightarrow> ('w, 'b) script) \<Rightarrow> ('w, 'b) script" where
  "andthen m k s = continue (m s) k"

text \<open>\<^verbatim>\<open>try: body  except NoSuchElementException: handler\<close>; any other exception propagates.\<close>

fun caught :: "(exn + 'a) \<times> 's \<Rightarrow> ('s \<Rightarrow> (exn + 'a) \<times> 's) \<Rightarrow> (exn + 'a) \<times> 's" where
  "caught (Inl NoSuchElementException, s) handler = handler s"
| "caught (Inl e, s) handler = (Inl e, s)"
| "caught (Inr a, s) handler = (Inr a, s)"

definition except_NoSuchElementException ::
  "('w, 'a) script \<Rightarrow> ('w, 'a) script \<Rightarrow> ('w, 'a) script" where
  "except_NoSuchElementException body handler s = caught (body s) handler"

text \<open>A call of the driver: the browser answers and moves on, the log grows by the call.\<close>

fun logged :: "event \<Rightarrow> event list \<Rightarrow> 'r \<times> 'w \<Rightarrow> 'r \<times> 'w session" where
  "logged ev log (r, w') = (r, (w', log @ [ev]))"

fun call :: "event \<Rightarrow> ('w \<Rightarrow> (exn + 'a) \<times> 'w) \<Rightarrow> ('w, 'a) script" where
  "call ev f (w, log) = logged ev log (f w)"

definition driver_find_element :: "'w driver \<Rightarrow> By \<Rightarrow> string \<Rightarrow> ('w, WebElement) script" where
  "driver_find_element d b v = call (FindElement b v) (find_element d b v)"

definition driver_find_elements :: "'w driver \<Rightarrow> By \<Rightarrow> string \<Rightarrow> ('w, WebElement list) script" where
  "driver_find_elements d b v = call (FindElements b v) (find_elements d b v)"

definition elem_find_element ::
  "'w driver \<Rightarrow> WebElement \<Rightarrow> By \<Rightarrow> string \<Rightarrow> ('w, WebElement) script" where
  "elem_find_element d x b v = call (ElementFindElement x b v) (element_find_element d x b v)"

definition elem_text :: "'w driver \<Rightarrow> WebElement \<Rightarrow> ('w, string) script" where
  "elem_text d x = call (ElementText x) (element_text d x)"

definition get_attribute :: "'w driver \<Rightarrow> WebElement \<Rightarrow> string \<Rightarrow> ('w, string option) script" where
  "get_attribute d x a = call (GetAttribute x a) (element_get_attribute d x a)"

definition click :: "'w driver \<Rightarrow> WebElement \<Rightarrow> ('w, unit) script" where
  "click d x = call (Click x) (element_click d x)"

definition perform_scroll :: "'w driver \<Rightarrow> WebElement \<Rightarrow> int \<Rightarrow> int \<Rightarrow> ('w, unit) script" where
  "perform_scroll d x dx dy = call (ScrollFromOrigin x dx dy) (scroll_from_origin d x dx dy)"

text \<open>\<^verbatim>\<open>time.sleep(n)\<close> raises nothing; the page may go on rendering while the script waits.\<close>

definition time_sleep :: "'w driver \<Rightarrow> nat \<Rightarrow> ('w, unit) script" where
  "time_sleep d n s = (Inr (), (time_passes d n (fst s), snd s @ [Sleep n]))"

definition print :: "string \<Rightarrow> ('w, unit) script" where
  "print msg s = (Inr (), (fst s, snd s @ [Print msg]))"

section \<open>The strings of the notebook\<close>

definition no_matching_jobs_xpath :: string where
  \<open>no_matching_jobs_xpath = ''/html/body/div[5]/div[3]/div[4]/div/div[1]/div/h1''\<close>

definition footer_xpath :: string where
  \<open>footer_xpath = ''//*[@id="main"]/div/div[1]/div''\<close>

definition job_titles_class :: string where
  \<open>job_titles_class = ''full-width.artdeco-entity-lockup__title.ember-view''\<close>

definition job_locations_class :: string where
  \<open>job_locations_class = ''artdeco-entity-lockup__caption''\<close>

definition company_names_class :: string where
  \<open>company_names_class = ''job-card-container__primary-description ''\<close>

definition no_matching_jobs_msg :: string where
  \<open>no_matching_jobs_msg = CHR 0x0A # ''No matching jobs found.''\<close>

definition search_begins_msg :: string where
  \<open>search_begins_msg = CHR 0x0A # ''---> Job search begins....'' @ [CHR 0x0A]\<close>

definition please_wait_msg :: string where
  \<open>please_wait_msg = ''Please wait, searching for jobs....''\<close>

text \<open>Python's \<^verbatim>\<open>str\<close> of an integer, as the f-string of the page button's selector uses it.\<close>

fun str_nat :: "nat \<Rightarrow> string" where
  "str_nat n =
     (if n < 10 then [''0123456789'' ! n]
      else str_nat (n div 10) @ [''0123456789'' ! (n mod 10)])"

declare str_nat.simps [simp del]

definition str_int :: "int \<Rightarrow> string" where
  "str_int i = (if i < 0 then CHR ''-'' # str_nat (nat (- i)) else str_nat (nat i))"

definition page_button_selector :: "int \<Rightarrow> string" where
  \<open>page_button_selector page_number =
     ''li[data-test-pagination-page-btn="'' @ str_int page_number @ ''"]''\<close>

section \<open>scrape_jobs\<close>

text \<open>The local variables of \<open>scrape_jobs\<close> that live across the iterations of its loop.\<close>

record locals =
  job_titles_list :: "string list"
  job_links_list :: "string option list"
  job_locations_list :: "string list"
  company_names_list :: "string list"
  page_number :: int

text \<open>
  What \<open>scrape_jobs\<close> hands back: \<open>None\<close> when the function ends without a
  \<^verbatim>\<open>return\<close>, or the tuple
  \<^verbatim>\<open>job_titles_list, job_locations_list, company_names_list, job_links_list\<close>.
\<close>

datatype result = PyNone | Lists "string list" "string list" "string list" "string option list"

text \<open>
  \<^verbatim>\<open>for i in range(6): ActionChains(driver).scroll_from_origin(scroll_origin, 0, 550).perform();
  time.sleep(1)\<close>
\<close>

fun scroll_loop :: "'w driver \<Rightarrow> WebElement \<Rightarrow> nat list \<Rightarrow> ('w, unit) script" where
  "scroll_loop d scroll_origin [] = returns ()"
| "scroll_loop d scroll_origin (i # rest) =
     andthen (perform_scroll d scroll_origin 0 550) (\<lambda>_.
     andthen (time_sleep d 1) (\<lambda>_.
     scroll_loop d scroll_origin rest))"

text \<open>\<^verbatim>\<open>for x in xs: lst.append(x.text)\<close>\<close>

fun append_texts :: "'w driver \<Rightarrow> WebElement list \<Rightarrow> string list \<Rightarrow> ('w, string list) script" where
  "append_texts d [] lst = returns lst"
| "append_texts d (x # xs) lst =
     andthen (elem_text d x) (\<lambda>t.
     append_texts d xs (lst @ [t]))"

text \<open>
  \<^verbatim>\<open>for job_title in job_titles:
    job_links_list.append(job_title.find_element(By.LINK_TEXT, job_title.text).get_attribute("href"))\<close>
\<close>

fun append_links ::
  "'w driver \<Rightarrow> WebElement list \<Rightarrow> string option list \<Rightarrow> ('w, string option list) script" where
  "append_links d [] lst = returns lst"
| "append_links d (job_title # xs) lst =
     andthen (elem_text d job_title) (\<lambda>t.
     andthen (elem_find_element d job_title LINK_TEXT t) (\<lambda>a.
     andthen (get_attribute d a ''href'') (\<lambda>href.
     append_links d xs (lst @ [href]))))"

text \<open>The scrolling of one iteration: the footer lookup and the six gestures.\<close>

definition scroll_page :: "'w driver \<Rightarrow> ('w, unit) script" where
  "scroll_page d =
     andthen (driver_find_element d XPATH footer_xpath) (\<lambda>footer.
     scroll_loop d footer [0..<6])"

text \<open>The extraction of one iteration: the four lists grow by what the page shows.\<close>

definition extract_page :: "'w driver \<Rightarrow> locals \<Rightarrow> ('w, locals) script" where
  "extract_page d v =
     andthen (driver_find_elements d CLASS_NAME job_titles_class) (\<lambda>job_titles.
     andthen (append_texts d job_titles (job_titles_list v)) (\<lambda>titles.
     andthen (append_links d job_titles (job_links_list v)) (\<lambda>links.
     andthen (driver_find_elements d CLASS_NAME job_locations_class) (\<lambda>job_locations.
     andthen (append_texts d job_locations (job_locations_list v)) (\<lambda>locations.
     andthen (driver_find_elements d CLASS_NAME company_names_class) (\<lambda>company_names.
     andthen (append_texts d company_names (company_names_list v)) (\<lambda>companies.
     returns (v\<lparr>job_titles_list := titles, job_links_list := links,
                 job_locations_list := locations, company_names_list := companies\<rparr>))))))))"

text \<open>
  The \<^verbatim>\<open>try\<close> that ends an iteration. It yields \<open>True\<close> and the next page number when
  the button was clicked, and \<open>False\<close> (the \<^verbatim>\<open>break\<close>) with the page number unchanged
  when a call of the block raised \<open>NoSuchElementException\<close>.
\<close>

definition next_page :: "'w driver \<Rightarrow> int \<Rightarrow> ('w, bool \<times> int) script" where
  "next_page d pn =
     except_NoSuchElementException
       (andthen (driver_find_element d CSS_SELECTOR (page_button_selector pn)) (\<lambda>li.
        andthen (elem_find_element d li TAG_NAME ''button'') (\<lambda>page_button.
        andthen (click d page_button) (\<lambda>_.
        andthen (time_sleep d 2) (\<lambda>_.
        returns (True, pn + 1))))))
       (returns (False, pn))"

text \<open>
  An iteration up to the \<^verbatim>\<open>try\<close>: the progress message, the scrolling, the extraction.
\<close>

definition scroll_and_extract :: "'w driver \<Rightarrow> locals \<Rightarrow> ('w, locals) script" where
  "scroll_and_extract d v =
     andthen (print please_wait_msg) (\<lambda>_.
     andthen (scroll_page d) (\<lambda>_.
     extract_page d v))"

text \<open>
  \<^verbatim>\<open>for i in range(1, 5): ...\<close>, over the values the range still has to give. The inner
  \<^verbatim>\<open>for i in range(6)\<close> rebinds \<open>i\<close>, which the outer loop never reads: its next value
  comes from the range.
\<close>

fun scrape_loop :: "'w driver \<Rightarrow> nat list \<Rightarrow> locals \<Rightarrow> ('w, locals) script" where
  "scrape_loop d [] v = returns v"
| "scrape_loop d (i # rest) v =
     andthen (scroll_and_extract d v) (\<lambda>v'.
     andthen (next_page d (page_number v')) (\<lambda>(clicked, pn).
     if clicked then scrape_loop d rest (v'\<lparr>page_number := pn\<rparr>)
     else returns v'))"

text \<open>The locals as the \<^verbatim>\<open>except\<close> branch of \<open>scrape_jobs\<close> sets them before its loop.\<close>

definition initial_locals :: locals where
  "initial_locals =
     \<lparr>job_titles_list = [], job_links_list = [], job_locations_list = [],
      company_names_list = [], page_number = 2\<rparr>"

definition returned :: "locals \<Rightarrow> result" where
  "returned v =
     Lists (job_titles_list v) (job_locations_list v) (company_names_list v) (job_links_list v)"

definition scrape_jobs :: "'w driver \<Rightarrow> ('w, result) script" where
  "scrape_jobs d =
     except_NoSuchElementException
       (andthen (driver_find_element d XPATH no_matching_jobs_xpath) (\<lambda>no_matching_jobs.
        andthen (print no_matching_jobs_msg) (\<lambda>_.
        returns PyNone)))
       (andthen (print search_begins_msg) (\<lambda>_.
        andthen (scrape_loop d [1..<5] initial_locals) (\<lambda>v.
        returns (returned v))))"

text \<open>
  The iterations a run of the loop gets to: from the loop over \<open>is0\<close> with the locals
  \<open>v0\<close> in the session \<open>s0\<close>, each iteration that ends with a click leads to the next.
\<close>

inductive loop_reaches ::
  "'w driver \<Rightarrow> nat list \<Rightarrow> locals \<Rightarrow> 'w session \<Rightarrow> nat list \<Rightarrow> locals \<Rightarrow> 'w session \<Rightarrow> bool"
  for d :: "'w driver" and is0 :: "nat list" and v0 :: locals and s0 :: "'w session" where
  first: "loop_reaches d is0 v0 s0 is0 v0 s0"
| following:
    "loop_reaches d is0 v0 s0 (i # rest) v s \<Longrightarrow>
     scroll_and_extract d v s = (Inr v', s1) \<Longrightarrow>
     next_page d (page_number v') s1 = (Inr (True, pn), s2) \<Longrightarrow>
     loop_reaches d is0 v0 s0 rest (v'\<lparr>page_number := pn\<rparr>) s2"

text \<open>
  What a run reads page by page. The batch of a page is what an iteration extracts when
  it starts from empty lists; \<open>page_batches\<close> lists the batches of the iterations of a
  run in the order in which the run makes them.
\<close>

definition no_records :: "int \<Rightarrow> locals" where
  "no_records pn =
     \<lparr>job_titles_list = [], job_links_list = [], job_locations_list = [],
      company_names_list = [], page_number = pn\<rparr>"

definition appended :: "locals \<Rightarrow> locals \<Rightarrow> locals" where
  "appended v batch =
     v\<lparr>job_titles_list := job_titles_list v @ job_titles_list batch,
       job_links_list := job_links_list v @ job_links_list batch,
       job_locations_list := job_locations_list v @ job_locations_list batch,
       company_names_list := company_names_list v @ company_names_list batch\<rparr>"

fun page_batches :: "'w driver \<Rightarrow> nat list \<Rightarrow> int \<Rightarrow> 'w session \<Rightarrow> locals list" where
  "page_batches d [] pn s = []"
| "page_batches d (i # rest) pn s =
     (case scroll_and_extract d (no_records pn) s of
        (Inl e, s1) \<Rightarrow> []
      | (Inr batch, s1) \<Rightarrow>
          batch # (case next_page d pn s1 of
                     (Inr (True, pn'), s2) \<Rightarrow> page_batches d rest pn' s2
                   | _ \<Rightarrow> []))"

text \<open>
  \<open>text_read d x t\<close>: \<open>t\<close> is a text the node \<open>x\<close> gave; \<open>link_read d x h\<close>: \<open>h\<close> is the
  \<open>href\<close> of a link found under \<open>x\<close> by the text of \<open>x\<close>.
\<close>

definition text_read :: "'w driver \<Rightarrow> WebElement \<Rightarrow> string \<Rightarrow> bool" where
  "text_read d x t = (\<exists>w. fst (element_text d x w) = Inr t)"

definition link_read :: "'w driver \<Rightarrow> WebElement \<Rightarrow> string option \<Rightarrow> bool" where
  "link_read d x h =
     (\<exists>t a w1 w2. text_read d x t
        \<and> fst (element_find_element d x LINK_TEXT t w1) = Inr a
        \<and> fst (element_get_attribute d a ''href'' w2) = Inr h)"

text \<open>The outcome of a script with a function applied to the value it returns.\<close>

fun mapped :: "('a \<Rightarrow> 'b) \<Rightarrow> (exn + 'a) \<times> 's \<Rightarrow> (exn + 'b) \<times> 's" where
  "mapped f (Inl e, s) = (Inl e, s)"
| "mapped f (Inr a, s) = (Inr (f a), s)"

section \<open>export_to_csv and the main cell\<close>

text \<open>
  \<open>pd.DataFrame\<close> of a dictionary of lists: one column per key, in the dictionary's order,
  one row per position. pandas refuses columns of different lengths with \<open>ValueError\<close>
  (``All arrays must be of the same length''). A cell is \<open>None\<close> or a string.
\<close>

type_synonym cell = "string option"

record frame =
  columns :: "string list"
  rows :: "cell list list"

definition DataFrame :: "(string \<times> cell list) list \<Rightarrow> exn + frame" where
  "DataFrame list_dict =
     (case list_dict of
        [] \<Rightarrow> Inr \<lparr>columns = [], rows = []\<rparr>
      | (_, first) # _ \<Rightarrow>
          if list_all (\<lambda>col. length (snd col) = length first) list_dict
          then Inr \<lparr>columns = map fst list_dict,
                    rows = map (\<lambda>i. map (\<lambda>col. snd col ! i) list_dict) [0..<length first]\<rparr>
          else Inl ValueError)"

text \<open>\<open>os.path.join\<close> of two components: an absolute second component replaces the first.\<close>

definition os_path_join :: "string \<Rightarrow> string \<Rightarrow> string" where
  "os_path_join a b =
     (if b \<noteq> [] \<and> hd b = CHR ''/'' then b
      else if a = [] \<or> last a = CHR ''/'' then a @ b
      else a @ ''/'' @ b)"

text \<open>
  The file system is a parameter like the driver: \<open>os_makedirs path\<close> is
  \<^verbatim>\<open>os.makedirs(path, exist_ok=True)\<close> and \<open>to_csv path df\<close> is
  \<^verbatim>\<open>df.to_csv(path, index=None)\<close>, each a function of the disk's state \<open>'f\<close> that may
  raise (a folder that cannot be made, a path into a folder that does not exist).
\<close>

record 'f filesystem =
  os_makedirs :: "string \<Rightarrow> 'f \<Rightarrow> (exn + unit) \<times> 'f"
  to_csv :: "string \<Rightarrow> frame \<Rightarrow> 'f \<Rightarrow> (exn + unit) \<times> 'f"

text \<open>
  \<open>export_to_csv\<close>, statement by statement: the dictionary, the folder, the frame, the
  file. \<^verbatim>\<open>pd.set_option\<close> only changes how frames are displayed. An exception ends the
  function where it is raised; the function returns \<open>None\<close>.
\<close>

fun write_frame ::
  "'f filesystem \<Rightarrow> string \<Rightarrow> exn + frame \<Rightarrow> 'f \<Rightarrow> (exn + unit) \<times> 'f" where
  "write_frame fs path (Inl e) f = (Inl e, f)"
| "write_frame fs path (Inr df) f = to_csv fs path df f"

fun after_makedirs ::
  "(exn + unit) \<times> 'f \<Rightarrow> ('f \<Rightarrow> (exn + unit) \<times> 'f) \<Rightarrow> (exn + unit) \<times> 'f" where
  "after_makedirs (Inl e, f) rest = (Inl e, f)"
| "after_makedirs (Inr u, f) rest = rest f"

definition export_to_csv ::
  "'f filesystem \<Rightarrow> string \<Rightarrow> string list \<Rightarrow> string list \<Rightarrow> string list
     \<Rightarrow> string option list \<Rightarrow> 'f \<Rightarrow> (exn + unit) \<times> 'f" where
  "export_to_csv fs job_search_domain job_titles_list' job_locations_list' company_names_list'
       job_links_list' f =
     (let list_dict = [(''Job Title'', map Some job_titles_list'),
                       (''Location'', map Some job_locations_list'),
                       (''Company'', map Some company_names_list'),
                       (''Link'', job_links_list')];
          folder_path = ''Jobs/''
      in after_makedirs (os_makedirs fs folder_path f)
           (write_frame fs (os_path_join folder_path (job_search_domain @ '' Jobs.csv''))
              (DataFrame list_dict)))"

text \<open>
  The two statements of the main cell that use the scraper's result:
  \<^verbatim>\<open>information = scrape_jobs(driver); export_to_csv(job_search_domain, *information)\<close>.
  The star needs an iterable: on \<open>None\<close> the call raises \<open>TypeError\<close> before
  \<open>export_to_csv\<close> is entered.
\<close>

fun export_information ::
  "'f filesystem \<Rightarrow> string \<Rightarrow> result \<Rightarrow> 'f \<Rightarrow> (exn + unit) \<times> 'f" where
  "export_information fs job_search_domain PyNone f = (Inl TypeError, f)"
| "export_information fs job_search_domain (Lists a b c e) f =
     export_to_csv fs job_search_domain a b c e f"

fun then_export ::
  "(exn + result) \<times> 's \<Rightarrow> (result \<Rightarrow> 'f \<Rightarrow> (exn + unit) \<times> 'f) \<Rightarrow> 'f
     \<Rightarrow> (exn + unit) \<times> 's \<times> 'f" where
  "then_export (Inl e, s) export f = (Inl e, s, f)"
| "then_export (Inr information, s) export f =
     (fst (export information f), s, snd (export information f))"

definition scrape_and_export ::
  "'w driver \<Rightarrow> 'f filesystem \<Rightarrow> string \<Rightarrow> 'w session \<times> 'f
     \<Rightarrow> (exn + unit) \<times> 'w session \<times> 'f" where
  "scrape_and_export d fs job_search_domain sf =
     then_export (scrape_jobs d (fst sf)) (export_information fs job_search_domain) (snd sf)"

section \<open>Reading the log\<close>

fun is_scroll :: "event \<Rightarrow> bool" where
  "is_scroll (ScrollFromOrigin _ _ _) = True"
| "is_scroll _ = False"

text \<open>The calls that read listings: node queries, text reads, link lookups, attribute reads.\<close>

fun is_extraction :: "event \<Rightarrow> bool" where
  "is_extraction (FindElements _ _) = True"
| "is_extraction (ElementText _) = True"
| "is_extraction (GetAttribute _ _) = True"
| "is_extraction (ElementFindElement _ LINK_TEXT _) = True"
| "is_extraction _ = False"

definition count_events :: "(event \<Rightarrow> bool) \<Rightarrow> event list \<Rightarrow> nat" where
  "count_events p log = length (filter p log)"

text \<open>The events a run added to the log.\<close>

definition new_events :: "'w session \<Rightarrow> 'w session \<Rightarrow> event list" where
  "new_events s s' = drop (length (snd s)) (snd s')"

text \<open>
  The iterations a run began (its progress messages) and the extraction passes it began
  (its queries for the title nodes).
\<close>

definition iterations_begun :: "event list \<Rightarrow> nat" where
  "iterations_begun log = count_events (\<lambda>ev. ev = Print please_wait_msg) log"

definition pages_visited :: "event list \<Rightarrow> nat" where
  "pages_visited log = count_events (\<lambda>ev. ev = FindElements CLASS_NAME job_titles_class) log"

text \<open>
  \<open>logs_at_most p n m\<close>: whatever the browser answers, the script \<open>m\<close> only appends to
  the log, and at most \<open>n\<close> of the events it appends satisfy \<open>p\<close>.
\<close>

definition logs_at_most :: "(event \<Rightarrow> bool) \<Rightarrow> nat \<Rightarrow> ('w, 'a) script \<Rightarrow> bool" where
  "logs_at_most p n m = (\<forall>s. \<exists>ext. snd (snd (m s)) = snd s @ ext \<and> count_events p ext \<le> n)"

text \<open>
  The two events that mark an iteration: its progress message and its query for the title
  nodes. A predicate that holds for nothing else counts iterations.
\<close>

definition marks_iterations :: "(event \<Rightarrow> bool) \<Rightarrow> bool" where
  "marks_iterations p =
     (\<forall>ev. p ev \<longrightarrow> ev = Print please_wait_msg \<or> ev = FindElements CLASS_NAME job_titles_class)"

definition marks_of :: "(event \<Rightarrow> bool) \<Rightarrow> nat" where
  "marks_of p = (if p (Print please_wait_msg) then 1 else 0)
              + (if p (FindElements CLASS_NAME job_titles_class) then 1 else 0)"

section \<open>Browsers to run the script on\<close>

text \<open>A browser showing the ``no matching jobs'' heading; its state never changes.\<close>

definition no_results_browser :: "unit driver" where
  "no_results_browser =
     \<lparr>find_element = (\<lambda>b v w. if b = XPATH \<and> v = no_matching_jobs_xpath then (Inr 7, w)
                               else (Inl NoSuchElementException, w)),
      find_elements = (\<lambda>b v w. (Inr [], w)),
      element_find_element = (\<lambda>x b v w. (Inl NoSuchElementException, w)),
      element_text = (\<lambda>x w. (Inr [], w)),
      element_get_attribute = (\<lambda>x a w. (Inr None, w)),
      element_click = (\<lambda>x w. (Inr (), w)),
      scroll_from_origin = (\<lambda>x dx dy w. (Inr (), w)),
      time_passes = (\<lambda>n w. w)\<rparr>"

text \<open>
  A feed of result pages. The browser's state is the number of the page it shows. The
  page has a button for each page number of \<open>page_buttons\<close>; page \<open>p\<close> shows the title
  nodes \<open>1000 * p + j\<close> for the \<open>j\<close> of \<open>title_nodes\<close>, and location and company nodes
  likewise. The title nodes of \<open>unlinked\<close> have no link under their text, and on the page
  \<open>unreachable_on\<close> the session is lost when nodes are queried.
\<close>

record feed =
  page_buttons :: "nat list"
  title_nodes :: "nat list"
  location_nodes :: "nat list"
  company_nodes :: "nat list"
  unlinked :: "WebElement list"
  unreachable_on :: nat

definition node_text :: "WebElement \<Rightarrow> string" where
  "node_text x = ''node '' @ str_nat x"

definition node_href :: "WebElement \<Rightarrow> string" where
  "node_href x = ''https://www.linkedin.com/jobs/view/'' @ str_nat x"

definition feed_browser :: "feed \<Rightarrow> nat driver" where
  "feed_browser f =
     \<lparr>find_element = (\<lambda>b v p.
        if b = XPATH \<and> v = footer_xpath then (Inr 1, p)
        else if b = CSS_SELECTOR then
          (case find (\<lambda>k. v = page_button_selector (int k)) (page_buttons f) of
             Some k \<Rightarrow> (Inr (100 + k), p)
           | None \<Rightarrow> (Inl NoSuchElementException, p))
        else (Inl NoSuchElementException, p)),
      find_elements = (\<lambda>b v p.
        if p = unreachable_on f then (Inl WebDriverException, p)
        else if b = CLASS_NAME \<and> v = job_titles_class
          then (Inr (map (\<lambda>j. 1000 * p + j) (title_nodes f)), p)
        else if b = CLASS_NAME \<and> v = job_locations_class
          then (Inr (map (\<lambda>j. 1000 * p + 300 + j) (location_nodes f)), p)
        else if b = CLASS_NAME \<and> v = company_names_class
          then (Inr (map (\<lambda>j. 1000 * p + 600 + j) (company_nodes f)), p)
        else (Inr [], p)),
      element_find_element = (\<lambda>x b v p.
        if b = TAG_NAME \<and> v = ''button'' \<and> 100 < x \<and> x < 200 then (Inr (x + 100), p)
        else if b = LINK_TEXT \<and> v = node_text x \<and> x \<notin> set (unlinked f)
          then (Inr (x + 500), p)
        else (Inl NoSuchElementException, p)),
      element_text = (\<lambda>x p. (Inr (node_text x), p)),
      element_get_attribute = (\<lambda>x a p.
        (Inr (if a = ''href'' then Some (node_href x) else None), p)),
      element_click = (\<lambda>x p. if 200 < x \<and> x < 300 then (Inr (), x - 200) else (Inr (), p)),
      scroll_from_origin = (\<lambda>x dx dy p. (Inr (), p)),
      time_passes = (\<lambda>n p. p)\<rparr>"

text \<open>Five result pages with one listing each.\<close>

definition five_pages :: feed where
  "five_pages = \<lparr>page_buttons = [2, 3, 4, 5], title_nodes = [0], location_nodes = [0],
                  company_nodes = [0], unlinked = [], unreachable_on = 0\<rparr>"

text \<open>One result page with two listings and no button for a second page.\<close>

definition one_page :: feed where
  "one_page = \<lparr>page_buttons = [], title_nodes = [0, 1], location_nodes = [0, 1],
                company_nodes = [0, 1], unlinked = [], unreachable_on = 0\<rparr>"

text \<open>Two result pages with two listings each.\<close>

definition two_pages :: feed where
  "two_pages = \<lparr>page_buttons = [2], title_nodes = [0, 1], location_nodes = [0, 1],
                 company_nodes = [0, 1], unlinked = [], unreachable_on = 0\<rparr>"

text \<open>Five title nodes, the third of which has no link under its text.\<close>

definition one_link_missing :: feed where
  "one_link_missing = \<lparr>page_buttons = [2], title_nodes = [0, 1, 2, 3, 4], location_nodes = [0],
                        company_nodes = [0], unlinked = [1002], unreachable_on = 0\<rparr>"


text \<open>One result page on which a listing shows no company.\<close>

definition company_missing :: feed where
  "company_missing = \<lparr>page_buttons = [], title_nodes = [0, 1], location_nodes = [0, 1],
                       company_nodes = [0], unlinked = [], unreachable_on = 0\<rparr>"

text \<open>A browser with a footer on which every scroll gesture fails; its state never changes.\<close>

definition scroll_fails_browser :: "unit driver" where
  "scroll_fails_browser =
     \<lparr>find_element = (\<lambda>b v w. if b = XPATH \<and> v = footer_xpath then (Inr 1, w)
                               else (Inl NoSuchElementException, w)),
      find_elements = (\<lambda>b v w. (Inr [], w)),
      element_find_element = (\<lambda>x b v w. (Inl NoSuchElementException, w)),
      element_text = (\<lambda>x w. (Inr [], w)),
      element_get_attribute = (\<lambda>x a w. (Inr None, w)),
      element_click = (\<lambda>x w. (Inr (), w)),
      scroll_from_origin = (\<lambda>x dx dy w. (Inl WebDriverException, w)),
      time_passes = (\<lambda>n w. w)\<rparr>"

text \<open>
  A disk: the folders made and the files written. A file can be written only into a
  folder that has been made.
\<close>

record disk =
  folders :: "string list"
  files :: "(string \<times> frame) list"

definition dirname :: "string \<Rightarrow> string" where
  "dirname path = rev (dropWhile (\<lambda>ch. ch \<noteq> CHR ''/'') (rev path))"

definition disk_ops :: "disk filesystem" where
  "disk_ops =
     \<lparr>os_makedirs = (\<lambda>path f. (Inr (), f\<lparr>folders := path # folders f\<rparr>)),
      to_csv = (\<lambda>path df f.
        if dirname path \<in> set (folders f) then (Inr (), f\<lparr>files := (path, df) # files f\<rparr>)
        else (Inl OSError, f))\<rparr>"

definition empty_disk :: disk where
  "empty_disk = \<lparr>folders = [], files = []\<rparr>"

section \<open>Running scripts\<close>

lemma logged_eq: "logged ev log x = (fst x, (snd x, log @ [ev]))"
  by (cases x) simp

lemma call_returns:
  assumes "call ev f s = (Inr a, s')"
  shows "fst (f (fst s)) = Inr a"
  using assms by (cases s) (simp add: logged_eq)

lemma andthen_returns:
  assumes "andthen m k s = (Inr b, s')"
  obtains a s1 where "m s = (Inr a, s1)" and "k a s1 = (Inr b, s')"
proof -
  obtain r s1 where run: "m s = (r, s1)" by (cases "m s")
  show thesis
  proof (cases r)
    case (Inl e)
    with run assms show thesis by (simp add: andthen_def)
  next
    case (Inr a)
    with run assms that show thesis by (simp add: andthen_def)
  qed
qed

lemma caught_returns:
  assumes "caught r handler = (Inr a, s')"
  obtains (passed) s where "r = (Inr a, s)" "s' = s"
  | (handled) s where "r = (Inl NoSuchElementException, s)" "handler s = (Inr a, s')"
proof -
  obtain x s where r: "r = (x, s)" by (cases r)
  show thesis
  proof (cases x)
    case (Inr b)
    with r assms passed show thesis by simp
  next
    case (Inl e)
    with r assms handled show thesis by (cases e) simp_all
  qed
qed

lemma andthen_assoc: "andthen (andthen m k) h = andthen m (\<lambda>a. andthen (k a) h)"
proof
  fix s
  obtain r s1 where "m s = (r, s1)" by (cases "m s")
  then show "andthen (andthen m k) h s = andthen m (\<lambda>a. andthen (k a) h) s"
    by (cases r) (simp_all add: andthen_def)
qed

lemma returns_andthen: "andthen (returns a) k = k a"
  by (rule ext) (simp add: andthen_def returns_def)

lemma mapped_eq_Inr:
  assumes "mapped f r = (Inr b, s')"
  obtains a where "r = (Inr a, s')" and "b = f a"
proof -
  obtain x s where r: "r = (x, s)" by (cases r)
  with assms that show thesis by (cases x) simp_all
qed

lemma andthen_mapped:
  assumes "\<And>a s. k' a s = mapped f (k a s)"
  shows "andthen m k' s = mapped f (andthen m k s)"
proof -
  obtain r s1 where "m s = (r, s1)" by (cases "m s")
  then show ?thesis by (cases r) (simp_all add: andthen_def assms)
qed

lemma count_events_append:
  "count_events p (xs @ ys) = count_events p xs + count_events p ys"
  by (simp add: count_events_def)

lemma count_events_Nil: "count_events p [] = 0"
  by (simp add: count_events_def)

lemma count_events_single: "count_events p [ev] = (if p ev then 1 else 0)"
  by (simp add: count_events_def)

lemma strings_differ:
  "footer_xpath \<noteq> no_matching_jobs_xpath" "no_matching_jobs_xpath \<noteq> footer_xpath"
  "job_locations_class \<noteq> job_titles_class" "company_names_class \<noteq> job_titles_class"
  "company_names_class \<noteq> job_locations_class"
  "search_begins_msg \<noteq> please_wait_msg" "no_matching_jobs_msg \<noteq> please_wait_msg"
  by (simp_all add: footer_xpath_def no_matching_jobs_xpath_def job_locations_class_def
      job_titles_class_def company_names_class_def search_begins_msg_def please_wait_msg_def
      no_matching_jobs_msg_def)

lemma page_button_selector_eq:
  "a \<in> {2, 3, 4, 5} \<Longrightarrow> b \<in> {2, 3, 4, 5} \<Longrightarrow>
   (page_button_selector a = page_button_selector b) = (a = b)"
  by (elim insertE emptyE; hypsubst; simp add: page_button_selector_def str_int_def str_nat.simps)

lemmas run_simps =
  scrape_jobs_def initial_locals_def returned_def scroll_and_extract_def scroll_page_def
  extract_page_def next_page_def except_NoSuchElementException_def andthen_def returns_def print_def time_sleep_def
  driver_find_element_def driver_find_elements_def elem_find_element_def elem_text_def
  get_attribute_def click_def perform_scroll_def upt_rec strings_differ page_button_selector_eq

lemmas log_simps = count_events_def pages_visited_def iterations_begun_def new_events_def

lemmas disk_simps = scrape_and_export_def export_to_csv_def DataFrame_def os_path_join_def
  dirname_def disk_ops_def empty_disk_def

section \<open>The iterations of a run\<close>

lemma scrape_jobs_searches:
  assumes "find_element d XPATH no_matching_jobs_xpath w = (Inl NoSuchElementException, w0)"
  shows "scrape_jobs d (w, log) =
           andthen (scrape_loop d [1..<5] initial_locals) (\<lambda>v. returns (returned v))
             (w0, log @ [FindElement XPATH no_matching_jobs_xpath, Print search_begins_msg])"
  using assms
  by (simp add: scrape_jobs_def except_NoSuchElementException_def andthen_def
      driver_find_element_def print_def)

lemma loop_reaches_same:
  assumes "loop_reaches d is0 v0 s0 is v s"
  shows "scrape_loop d is0 v0 s0 = scrape_loop d is v s"
  using assms
proof (induction rule: loop_reaches.induct)
  case first
  show ?case by simp
next
  case (following i rest v s v' s1 pn s2)
  then show ?case by (simp add: andthen_def)
qed

lemma loop_raises:
  assumes "loop_reaches d is0 v0 s0 (i # rest) v s"
    and "scroll_and_extract d v s = (Inl e, s')"
  shows "scrape_loop d is0 v0 s0 = (Inl e, s')"
  using loop_reaches_same [OF assms(1)] assms(2) by (simp add: andthen_def)

lemma range_1_5: "[1..<5] = 1 # [2, 3, 4::nat]"
  by (simp add: upt_rec)

section \<open>The empty result\<close>

text \<open>
  C1, as the code has it. When the lookup of the ``no matching jobs'' heading finds an
  element, \<open>scrape_jobs\<close> prints \<open>No matching jobs found.\<close> and returns \<open>None\<close>: no
  record sequence, not an empty one. The lookup and the print are all it did, so it made
  no scroll gesture and no extraction call.
\<close>

theorem no_results_stops_before_loop:
  assumes "find_element d XPATH no_matching_jobs_xpath w = (Inr h, w')"
  shows "scrape_jobs d (w, log) =
           (Inr PyNone, (w', log @ [FindElement XPATH no_matching_jobs_xpath,
                                     Print no_matching_jobs_msg]))
         \<and> count_events is_scroll (new_events (w, log) (snd (scrape_jobs d (w, log)))) = 0
         \<and> count_events is_extraction (new_events (w, log) (snd (scrape_jobs d (w, log)))) = 0"
  using assms
  by (simp add: scrape_jobs_def except_NoSuchElementException_def andthen_def
      driver_find_element_def count_events_def new_events_def print_def returns_def)

theorem no_results_stops_before_loop_witness:
  "scrape_jobs no_results_browser ((), []) =
     (Inr PyNone, ((), [FindElement XPATH no_matching_jobs_xpath, Print no_matching_jobs_msg]))
   \<and> count_events is_scroll
       (new_events ((), []) (snd (scrape_jobs no_results_browser ((), [])))) = 0
   \<and> count_events is_extraction
       (new_events ((), []) (snd (scrape_jobs no_results_browser ((), [])))) = 0"
proof -
  have "find_element no_results_browser XPATH no_matching_jobs_xpath () = (Inr 7, ())"
    by (simp add: no_results_browser_def)
  from no_results_stops_before_loop [OF this, of "[]"] show ?thesis
    by (simp add: count_events_def new_events_def)
qed

text \<open>
  A browser that shows the heading: the result is \<open>None\<close> and not the tuple of four
  empty lists. The difference shows in the main cell, where \<open>None\<close> raises
  \<open>TypeError\<close> and four empty lists give a file with a header and no rows.
\<close>

theorem no_results_is_none_not_empty:
  "fst (scrape_jobs no_results_browser ((), [])) = Inr PyNone
   \<and> fst (scrape_jobs no_results_browser ((), [])) \<noteq> Inr (Lists [] [] [] [])
   \<and> fst (export_information disk_ops ''ML'' PyNone empty_disk) = Inl TypeError
   \<and> export_information disk_ops ''ML'' (Lists [] [] [] []) empty_disk =
       (Inr (), \<lparr>folders = [''Jobs/''],
                 files = [(''Jobs/ML Jobs.csv'',
                           \<lparr>columns = [''Job Title'', ''Location'', ''Company'', ''Link''],
                            rows = []\<rparr>)]\<rparr>)"
  by (simp add: disk_simps scrape_jobs_def except_NoSuchElementException_def andthen_def
      driver_find_element_def print_def returns_def no_results_browser_def)

section \<open>How much a script can log\<close>

lemma logs_at_most_returns: "logs_at_most p 0 (returns a)"
  by (simp add: logs_at_most_def returns_def count_events_Nil)

lemma logs_at_most_call: "logs_at_most p (if p ev then 1 else 0) (call ev f)"
  unfolding logs_at_most_def
proof
  fix s :: "'a session"
  obtain w log where s: "s = (w, log)" by (cases s)
  obtain r w' where f: "f w = (r, w')" by (cases "f w")
  show "\<exists>ext. snd (snd (call ev f s)) = snd s @ ext
          \<and> count_events p ext \<le> (if p ev then 1 else 0)"
    by (intro exI [of _ "[ev]"]) (simp add: s f count_events_single)
qed

lemma logs_at_most_print: "logs_at_most p (if p (Print msg) then 1 else 0) (print msg)"
  by (simp add: logs_at_most_def print_def count_events_single)

lemma logs_at_most_sleep: "logs_at_most p (if p (Sleep n) then 1 else 0) (time_sleep d n)"
  by (simp add: logs_at_most_def time_sleep_def count_events_single)

lemma logs_at_most_mono: "logs_at_most p n m \<Longrightarrow> n \<le> n' \<Longrightarrow> logs_at_most p n' m"
  unfolding logs_at_most_def by (meson le_trans)

lemma logs_at_most_andthen:
  assumes m: "logs_at_most p n1 m" and k: "\<And>a. logs_at_most p n2 (k a)"
  shows "logs_at_most p (n1 + n2) (andthen m k)"
  unfolding logs_at_most_def
proof
  fix s
  from m obtain e1 where e1: "snd (snd (m s)) = snd s @ e1" "count_events p e1 \<le> n1"
    unfolding logs_at_most_def by blast
  obtain r s1 where run: "m s = (r, s1)" by (cases "m s")
  show "\<exists>ext. snd (snd (andthen m k s)) = snd s @ ext \<and> count_events p ext \<le> n1 + n2"
  proof (cases r)
    case (Inl e)
    with run e1 show ?thesis
      by (intro exI [of _ e1]) (simp add: andthen_def)
  next
    case (Inr a)
    from k [of a] obtain e2 where
      e2: "snd (snd (k a s1)) = snd s1 @ e2" "count_events p e2 \<le> n2"
      unfolding logs_at_most_def by blast
    with run Inr e1 show ?thesis
      by (intro exI [of _ "e1 @ e2"]) (simp add: andthen_def count_events_append)
  qed
qed

lemma logs_at_most_except:
  assumes m: "logs_at_most p n1 body" and k: "logs_at_most p n2 handler"
  shows "logs_at_most p (n1 + n2) (except_NoSuchElementException body handler)"
  unfolding logs_at_most_def
proof
  fix s
  from m obtain e1 where e1: "snd (snd (body s)) = snd s @ e1" "count_events p e1 \<le> n1"
    unfolding logs_at_most_def by blast
  obtain r s1 where run: "body s = (r, s1)" by (cases "body s")
  from k obtain e2 where
    e2: "snd (snd (handler s1)) = snd s1 @ e2" "count_events p e2 \<le> n2"
    unfolding logs_at_most_def by blast
  show "\<exists>ext. snd (snd (except_NoSuchElementException body handler s)) = snd s @ ext
          \<and> count_events p ext \<le> n1 + n2"
  proof (cases "r = Inl NoSuchElementException")
    case True
    with run e1 e2 show ?thesis
      by (intro exI [of _ "e1 @ e2"])
        (simp add: except_NoSuchElementException_def count_events_append)
  next
    case False
    with run e1 have "except_NoSuchElementException body handler s = (r, s1)"
      by (cases r; cases "projl r") (simp_all add: except_NoSuchElementException_def)
    with run e1 show ?thesis
      by (intro exI [of _ e1]) simp
  qed
qed

lemma marks_iterations_others:
  assumes "marks_iterations p"
  shows "\<not> p (ScrollFromOrigin x dx dy)" "\<not> p (Sleep n)" "\<not> p (ElementText x)"
    "\<not> p (ElementFindElement x b v)" "\<not> p (GetAttribute x a)" "\<not> p (Click x)"
    "\<not> p (FindElement b v)" "\<not> p (FindElements CLASS_NAME job_locations_class)"
    "\<not> p (FindElements CLASS_NAME company_names_class)"
    "\<not> p (Print search_begins_msg)" "\<not> p (Print no_matching_jobs_msg)"
  using assms strings_differ unfolding marks_iterations_def by blast+

lemma scroll_loop_quiet:
  assumes "marks_iterations p"
  shows "logs_at_most p 0 (scroll_loop d x is)"
proof (induction "is")
  case Nil
  show ?case by (simp add: logs_at_most_returns)
next
  case (Cons i rest)
  have "logs_at_most p (0 + (0 + 0)) (scroll_loop d x (i # rest))"
    unfolding scroll_loop.simps perform_scroll_def
    by (intro logs_at_most_andthen Cons logs_at_most_mono [OF logs_at_most_call]
        logs_at_most_mono [OF logs_at_most_sleep])
      (simp_all add: marks_iterations_others [OF assms])
  then show ?case by simp
qed

lemma append_texts_quiet:
  assumes "marks_iterations p"
  shows "logs_at_most p 0 (append_texts d xs lst)"
proof (induction xs arbitrary: lst)
  case Nil
  show ?case by (simp add: logs_at_most_returns)
next
  case (Cons x xs)
  have "logs_at_most p (0 + 0) (append_texts d (x # xs) lst)"
    unfolding append_texts.simps elem_text_def
    by (intro logs_at_most_andthen Cons logs_at_most_mono [OF logs_at_most_call])
      (simp_all add: marks_iterations_others [OF assms])
  then show ?case by simp
qed

lemma append_links_quiet:
  assumes "marks_iterations p"
  shows "logs_at_most p 0 (append_links d xs lst)"
proof (induction xs arbitrary: lst)
  case Nil
  show ?case by (simp add: logs_at_most_returns)
next
  case (Cons x xs)
  have "logs_at_most p (0 + (0 + (0 + 0))) (append_links d (x # xs) lst)"
    unfolding append_links.simps elem_text_def elem_find_element_def get_attribute_def
    by (intro logs_at_most_andthen Cons logs_at_most_mono [OF logs_at_most_call])
      (simp_all add: marks_iterations_others [OF assms])
  then show ?case by simp
qed

lemma scroll_page_quiet:
  assumes "marks_iterations p"
  shows "logs_at_most p 0 (scroll_page d)"
proof -
  have "logs_at_most p (0 + 0) (scroll_page d)"
    unfolding scroll_page_def driver_find_element_def
    by (intro logs_at_most_andthen scroll_loop_quiet [OF assms]
        logs_at_most_mono [OF logs_at_most_call])
      (simp_all add: marks_iterations_others [OF assms])
  then show ?thesis by simp
qed

lemma extract_page_once:
  assumes "marks_iterations p"
  shows "logs_at_most p (if p (FindElements CLASS_NAME job_titles_class) then 1 else 0)
           (extract_page d v)"
proof -
  have "logs_at_most p ((if p (FindElements CLASS_NAME job_titles_class) then 1 else 0)
          + (0 + (0 + (0 + (0 + (0 + (0 + 0))))))) (extract_page d v)"
    unfolding extract_page_def driver_find_elements_def
    by (intro logs_at_most_andthen append_texts_quiet [OF assms] append_links_quiet [OF assms]
        logs_at_most_returns logs_at_most_call logs_at_most_mono [OF logs_at_most_call])
      (simp_all add: marks_iterations_others [OF assms])
  then show ?thesis by simp
qed

lemma next_page_quiet:
  assumes "marks_iterations p"
  shows "logs_at_most p 0 (next_page d pn)"
proof -
  have "logs_at_most p ((0 + (0 + (0 + (0 + 0)))) + 0) (next_page d pn)"
    unfolding next_page_def driver_find_element_def elem_find_element_def click_def
    by (intro logs_at_most_except logs_at_most_andthen logs_at_most_returns
        logs_at_most_mono [OF logs_at_most_call] logs_at_most_mono [OF logs_at_most_sleep])
      (simp_all add: marks_iterations_others [OF assms])
  then show ?thesis by simp
qed

lemma scroll_and_extract_once:
  assumes "marks_iterations p"
  shows "logs_at_most p (marks_of p) (scroll_and_extract d v)"
proof -
  have "logs_at_most p ((if p (Print please_wait_msg) then 1 else 0)
          + (0 + (if p (FindElements CLASS_NAME job_titles_class) then 1 else 0)))
          (scroll_and_extract d v)"
    unfolding scroll_and_extract_def
    by (intro logs_at_most_andthen logs_at_most_print scroll_page_quiet [OF assms]
        extract_page_once [OF assms])
  then show ?thesis by (simp add: marks_of_def)
qed

lemma scrape_loop_bounded:
  assumes "marks_iterations p"
  shows "logs_at_most p (length is * marks_of p) (scrape_loop d is v)"
proof (induction "is" arbitrary: v)
  case Nil
  show ?case by (simp add: logs_at_most_returns)
next
  case (Cons i rest)
  have tail: "logs_at_most p (length rest * marks_of p)
                (case cp of (clicked, pn) \<Rightarrow>
                   if clicked then scrape_loop d rest (v'\<lparr>page_number := pn\<rparr>) else returns v')"
    for cp v'
    by (cases cp) (simp add: Cons logs_at_most_mono [OF logs_at_most_returns])
  have "logs_at_most p (marks_of p + (0 + length rest * marks_of p))
          (scrape_loop d (i # rest) v)"
    unfolding scrape_loop.simps
    by (intro logs_at_most_andthen tail scroll_and_extract_once [OF assms]
        next_page_quiet [OF assms])
  then show ?case by simp
qed

lemma scrape_jobs_bounded:
  assumes "marks_iterations p"
  shows "logs_at_most p (4 * marks_of p) (scrape_jobs d)"
proof -
  have "logs_at_most p ((0 + (0 + 0)) + (0 + (length [1..<5::nat] * marks_of p + 0)))
          (scrape_jobs d)"
    unfolding scrape_jobs_def driver_find_element_def
    by (intro logs_at_most_except logs_at_most_andthen logs_at_most_returns
        scrape_loop_bounded [OF assms] logs_at_most_mono [OF logs_at_most_call]
        logs_at_most_mono [OF logs_at_most_print])
      (simp_all add: marks_iterations_others [OF assms])
  then show ?thesis by simp
qed

text \<open>
  C2. Whatever the browser answers, a run of \<open>scrape_jobs\<close> begins at most four
  iterations and at most four extraction passes: the loop is bounded by its range, not
  by the feed.
\<close>

theorem pages_visited_at_most_4:
  "pages_visited (snd (snd (scrape_jobs d (w, [])))) \<le> 4
   \<and> iterations_begun (snd (snd (scrape_jobs d (w, [])))) \<le> 4"
proof
  have "marks_iterations (\<lambda>ev. ev = FindElements CLASS_NAME job_titles_class)"
    by (simp add: marks_iterations_def)
  from scrape_jobs_bounded [OF this, of d]
  obtain ext where "snd (snd (scrape_jobs d (w, []))) = snd (w, []) @ ext"
    and "count_events (\<lambda>ev. ev = FindElements CLASS_NAME job_titles_class) ext
           \<le> 4 * marks_of (\<lambda>ev. ev = FindElements CLASS_NAME job_titles_class)"
    unfolding logs_at_most_def by blast
  then show "pages_visited (snd (snd (scrape_jobs d (w, [])))) \<le> 4"
    by (simp add: pages_visited_def marks_of_def)
next
  have "marks_iterations (\<lambda>ev. ev = Print please_wait_msg)"
    by (simp add: marks_iterations_def)
  from scrape_jobs_bounded [OF this, of d]
  obtain ext where "snd (snd (scrape_jobs d (w, []))) = snd (w, []) @ ext"
    and "count_events (\<lambda>ev. ev = Print please_wait_msg) ext
           \<le> 4 * marks_of (\<lambda>ev. ev = Print please_wait_msg)"
    unfolding logs_at_most_def by blast
  then show "iterations_begun (snd (snd (scrape_jobs d (w, [])))) \<le> 4"
    by (simp add: iterations_begun_def marks_of_def)
qed

theorem pages_visited_at_most_4_witness:
  "pages_visited (snd (snd (scrape_jobs (feed_browser five_pages) (1, [])))) = 4
   \<and> iterations_begun (snd (snd (scrape_jobs (feed_browser five_pages) (1, [])))) = 4"
proof -
  have "4 \<le> pages_visited (snd (snd (scrape_jobs (feed_browser five_pages) (1, []))))"
    and "4 \<le> iterations_begun (snd (snd (scrape_jobs (feed_browser five_pages) (1, []))))"
    by (simp_all add: run_simps log_simps feed_browser_def five_pages_def)
  with pages_visited_at_most_4 [of "feed_browser five_pages" 1] show ?thesis
    by simp
qed

section \<open>The fifth page\<close>

text \<open>
  C3. On a feed of five pages the loop makes four extraction passes, and its fourth
  iteration ends like the others: it looks up the button of page 5, clicks it and waits,
  so that the browser shows a fifth page when \<open>scrape_jobs\<close> returns.
\<close>

theorem fifth_page_button_clicked:
  "scrape_jobs (feed_browser five_pages) (1, []) =
     (Inr (Lists [node_text 1000, node_text 2000, node_text 3000, node_text 4000]
                 [node_text 1300, node_text 2300, node_text 3300, node_text 4300]
                 [node_text 1600, node_text 2600, node_text 3600, node_text 4600]
                 [Some (node_href 1500), Some (node_href 2500), Some (node_href 3500),
                  Some (node_href 4500)]),
      (5, snd (snd (scrape_jobs (feed_browser five_pages) (1, [])))))
   \<and> pages_visited (snd (snd (scrape_jobs (feed_browser five_pages) (1, [])))) = 4
   \<and> drop 106 (snd (snd (scrape_jobs (feed_browser five_pages) (1, [])))) =
       [FindElement CSS_SELECTOR (page_button_selector 5),
        ElementFindElement 105 TAG_NAME ''button'', Click 205, Sleep 2]"
  by (simp add: run_simps log_simps feed_browser_def five_pages_def)

section \<open>A failure while a page is read\<close>




section \<open>The end of the feed\<close>

lemma extract_page_page_number:
  assumes "extract_page d v s = (Inr v', s')"
  shows "page_number v' = page_number v"
proof -
  from assms obtain job_titles s1 titles s2 links s3 job_locations s4 locations s5
    company_names s6 companies s7 where
    "returns (v\<lparr>job_titles_list := titles, job_links_list := links,
                 job_locations_list := locations, company_names_list := companies\<rparr>) s7
       = (Inr v', s')"
    unfolding extract_page_def by (elim andthen_returns)
  then show ?thesis by (auto simp: returns_def)
qed

lemma scroll_and_extract_page_number:
  assumes "scroll_and_extract d v s = (Inr v', s')"
  shows "page_number v' = page_number v"
proof -
  from assms obtain u s1 u' s2 where "extract_page d v s2 = (Inr v', s')"
    unfolding scroll_and_extract_def by (elim andthen_returns)
  then show ?thesis by (rule extract_page_page_number)
qed

lemma next_page_exhausted:
  assumes "find_element d CSS_SELECTOR (page_button_selector pn) w
             = (Inl NoSuchElementException, w')"
  shows "next_page d pn (w, log) =
           (Inr (False, pn), (w', log @ [FindElement CSS_SELECTOR (page_button_selector pn)]))"
  using assms
  by (simp add: next_page_def except_NoSuchElementException_def andthen_def
      driver_find_element_def returns_def)

lemma next_page_outcome:
  assumes "next_page d pn s0 = (Inr (clicked, pn'), s1)"
  shows "if clicked
         then pn' = pn + 1
              \<and> (\<exists>page_button w w'. element_click d page_button w = (Inr (), w')
                    \<and> Click page_button \<in> set (new_events s0 s1))
         else pn' = pn"
  using assms unfolding next_page_def except_NoSuchElementException_def
proof (cases rule: caught_returns)
  case (handled s)
  then show ?thesis by (simp add: returns_def)
next
  case (passed s)
  from passed(1) obtain li sa page_button sb u sc u' sd where
    pressed: "click d page_button sb = (Inr u, sc)" and
    slept: "time_sleep d 2 sc = (Inr u', sd)" and
    fin: "returns (True, pn + 1) sd = (Inr (clicked, pn'), s)" and
    found: "driver_find_element d CSS_SELECTOR (page_button_selector pn) s0 = (Inr li, sa)"
      "elem_find_element d li TAG_NAME ''button'' sa = (Inr page_button, sb)"
    by (elim andthen_returns)
  obtain w0 log0 where s0: "s0 = (w0, log0)" by (cases s0)
  obtain wa loga where sa: "sa = (wa, loga)" by (cases sa)
  obtain wb logb where sb: "sb = (wb, logb)" by (cases sb)
  from found s0 sa sb have logb: "logb = log0 @ [FindElement CSS_SELECTOR (page_button_selector pn),
      ElementFindElement li TAG_NAME ''button'']"
    by (auto simp: driver_find_element_def elem_find_element_def logged_eq)
  from pressed sb have click: "element_click d page_button wb = (Inr (), fst sc)"
    and sc: "snd sc = logb @ [Click page_button]"
    by (auto simp: click_def logged_eq prod_eq_iff)
  from slept have "snd sd = snd sc @ [Sleep 2]"
    by (auto simp: time_sleep_def)
  with fin passed(2) sc logb s0 have "Click page_button \<in> set (new_events s0 s1)"
    by (auto simp: returns_def new_events_def)
  with fin click show ?thesis
    by (auto simp: returns_def)
qed

text \<open>
  C7. Take any iteration a run gets to. If its extraction returns and the page has no
  button for the expected page number, the run is over: \<open>scrape_jobs\<close> returns the
  lists as they are, in the session the failed lookup left, with that lookup as the last
  entry of the log. No further iteration and no further call follows, and the page
  number is the one the iteration began with. In general the \<^verbatim>\<open>try\<close> block hands
  back the page number plus one only together with a click that returned.
\<close>

theorem exhausted_ends_run:
  assumes "find_element d XPATH no_matching_jobs_xpath w = (Inl NoSuchElementException, w0)"
    and "loop_reaches d [1..<5] initial_locals
           (w0, log @ [FindElement XPATH no_matching_jobs_xpath, Print search_begins_msg])
           (i # rest) v s"
    and "scroll_and_extract d v s = (Inr v', (w1, log1))"
    and "find_element d CSS_SELECTOR (page_button_selector (page_number v')) w1
           = (Inl NoSuchElementException, w2)"
  shows "scrape_jobs d (w, log) =
           (Inr (returned v'),
            (w2, log1 @ [FindElement CSS_SELECTOR (page_button_selector (page_number v'))]))
       \<and> page_number v' = page_number v
       \<and> (\<forall>pn s0 clicked pn' s1.
             next_page d pn s0 = (Inr (clicked, pn'), s1) \<longrightarrow>
             (if clicked
              then pn' = pn + 1
                   \<and> (\<exists>page_button wa wb. element_click d page_button wa = (Inr (), wb)
                         \<and> Click page_button \<in> set (new_events s0 s1))
              else pn' = pn))"
proof (intro conjI allI impI)
  have "scrape_loop d (i # rest) v s =
          (Inr v', (w2, log1 @ [FindElement CSS_SELECTOR (page_button_selector (page_number v'))]))"
    by (simp add: andthen_def assms(3) next_page_exhausted [OF assms(4)] returns_def)
  with loop_reaches_same [OF assms(2)]
  show "scrape_jobs d (w, log) =
          (Inr (returned v'),
           (w2, log1 @ [FindElement CSS_SELECTOR (page_button_selector (page_number v'))]))"
    by (simp add: scrape_jobs_searches [OF assms(1)] andthen_def returns_def)
next
  from assms(3) show "page_number v' = page_number v"
    by (rule scroll_and_extract_page_number)
next
  fix pn s0 clicked pn' s1
  assume "next_page d pn s0 = (Inr (clicked, pn'), s1)"
  then show "if clicked
      then pn' = pn + 1
           \<and> (\<exists>page_button wa wb. element_click d page_button wa = (Inr (), wb)
                 \<and> Click page_button \<in> set (new_events s0 s1))
      else pn' = pn"
    by (rule next_page_outcome)
qed

theorem exhausted_ends_run_witness:
  "fst (scrape_jobs (feed_browser one_page) (1, [])) =
     Inr (Lists [node_text 1000, node_text 1001] [node_text 1300, node_text 1301]
                [node_text 1600, node_text 1601]
                [Some (node_href 1500), Some (node_href 1501)])
   \<and> last (snd (snd (scrape_jobs (feed_browser one_page) (1, [])))) =
       FindElement CSS_SELECTOR (page_button_selector 2)
   \<and> iterations_begun (snd (snd (scrape_jobs (feed_browser one_page) (1, [])))) = 1"
proof -
  let ?d = "feed_browser one_page"
  let ?s0 = "(1::nat, [] @ [FindElement XPATH no_matching_jobs_xpath, Print search_begins_msg])"
  let ?r1 = "scroll_and_extract ?d initial_locals ?s0"
  let ?v1 = "projr (fst ?r1)"
  have absent: "find_element ?d XPATH no_matching_jobs_xpath 1 = (Inl NoSuchElementException, 1)"
    by (simp add: feed_browser_def strings_differ)
  have start: "loop_reaches ?d [1..<5] initial_locals ?s0 (1 # [2, 3, 4]) initial_locals ?s0"
    by (subst range_1_5 [symmetric]) (rule loop_reaches.first)
  have page1: "?r1 = (Inr ?v1, (1, snd (snd ?r1)))"
    by (simp add: run_simps feed_browser_def one_page_def)
  have no_button: "find_element ?d CSS_SELECTOR (page_button_selector (page_number ?v1)) 1
                     = (Inl NoSuchElementException, 1)"
    by (simp add: run_simps feed_browser_def one_page_def)
  have v1: "returned ?v1 =
      Lists [node_text 1000, node_text 1001] [node_text 1300, node_text 1301]
            [node_text 1600, node_text 1601] [Some (node_href 1500), Some (node_href 1501)]"
    "page_number ?v1 = 2"
    by (simp_all add: run_simps feed_browser_def one_page_def)
  have begun: "iterations_begun (snd (snd ?r1)) = 1"
    by (simp add: run_simps log_simps feed_browser_def one_page_def)
  from exhausted_ends_run [OF absent start page1 no_button] v1 begun
  show ?thesis by (simp add: log_simps)
qed

section \<open>The order of the records\<close>

lemma append_texts_from_empty:
  "append_texts d xs lst s = mapped ((@) lst) (append_texts d xs [] s)"
proof (induction xs arbitrary: lst s)
  case Nil
  show ?case by (simp add: returns_def)
next
  case (Cons x xs)
  obtain r s1 where run: "elem_text d x s = (r, s1)" by (cases "elem_text d x s")
  show ?case
  proof (cases r)
    case (Inl e)
    with run show ?thesis by (simp add: andthen_def)
  next
    case (Inr t)
    obtain r2 s2 where rest: "append_texts d xs [] s1 = (r2, s2)"
      by (cases "append_texts d xs [] s1")
    from Cons.IH [of "lst @ [t]" s1] Cons.IH [of "[t]" s1] rest run Inr
    show ?thesis by (cases r2) (simp_all add: andthen_def)
  qed
qed

lemma append_links_from_empty:
  "append_links d xs lst s = mapped ((@) lst) (append_links d xs [] s)"
proof (induction xs arbitrary: lst s)
  case Nil
  show ?case by (simp add: returns_def)
next
  case (Cons x xs)
  have step: "append_links d xs (lst @ [href]) s' = mapped ((@) lst) (append_links d xs [href] s')"
    for href s'
  proof -
    obtain r2 s2 where rest: "append_links d xs [] s' = (r2, s2)"
      by (cases "append_links d xs [] s'")
    from Cons.IH [of "lst @ [href]" s'] Cons.IH [of "[href]" s'] rest
    show ?thesis by (cases r2) simp_all
  qed
  show ?case
    unfolding append_links.simps
    by (intro andthen_mapped) (simp add: step)
qed

lemma append_texts_in_order:
  assumes "append_texts d xs [] s = (Inr ts, s')"
  shows "list_all2 (text_read d) xs ts"
  using assms
proof (induction xs arbitrary: s ts)
  case Nil
  then show ?case by (simp add: returns_def)
next
  case (Cons x xs)
  from Cons.prems obtain t s1 where
    head: "elem_text d x s = (Inr t, s1)" and
    tail: "append_texts d xs ([] @ [t]) s1 = (Inr ts, s')"
    unfolding append_texts.simps by (rule andthen_returns)
  from tail obtain ts' where
    rest: "append_texts d xs [] s1 = (Inr ts', s')" and ts: "ts = [t] @ ts'"
    by (simp only: append_Nil append_texts_from_empty [of d xs "[t]" s1])
      (erule mapped_eq_Inr)
  from head have "text_read d x t"
    unfolding elem_text_def text_read_def by (blast dest: call_returns)
  with Cons.IH [OF rest] ts show ?case by simp
qed

lemma append_links_in_order:
  assumes "append_links d xs [] s = (Inr ls, s')"
  shows "list_all2 (link_read d) xs ls"
  using assms
proof (induction xs arbitrary: s ls)
  case Nil
  then show ?case by (simp add: returns_def)
next
  case (Cons x xs)
  from Cons.prems obtain t s1 a s2 href s3 where
    tail: "append_links d xs ([] @ [href]) s3 = (Inr ls, s')" and
    head: "elem_text d x s = (Inr t, s1)"
      "elem_find_element d x LINK_TEXT t s1 = (Inr a, s2)"
      "get_attribute d a ''href'' s2 = (Inr href, s3)"
    unfolding append_links.simps by (elim andthen_returns)
  from tail obtain ls' where
    rest: "append_links d xs [] s3 = (Inr ls', s')" and ls: "ls = [href] @ ls'"
    by (simp only: append_Nil append_links_from_empty [of d xs "[href]" s3])
      (erule mapped_eq_Inr)
  from head have "link_read d x href"
    unfolding elem_text_def elem_find_element_def get_attribute_def link_read_def text_read_def
    by (blast dest: call_returns)
  with Cons.IH [OF rest] ls show ?case by simp
qed

lemma extract_page_batch:
  assumes "extract_page d v s = (Inr v', s')"
  obtains batch job_titles where
    "extract_page d (no_records pn) s = (Inr batch, s')" and "v' = appended v batch" and
    "fst (find_elements d CLASS_NAME job_titles_class (fst s)) = Inr job_titles" and
    "list_all2 (text_read d) job_titles (job_titles_list batch)" and
    "list_all2 (link_read d) job_titles (job_links_list batch)"
proof -
  from assms obtain job_titles s1 titles s2 links s3 job_locations s4 locations s5
    company_names s6 companies s7 where
    fin: "returns (v\<lparr>job_titles_list := titles, job_links_list := links,
                 job_locations_list := locations, company_names_list := companies\<rparr>) s7
           = (Inr v', s')" and
    runs: "driver_find_elements d CLASS_NAME job_titles_class s = (Inr job_titles, s1)"
      "driver_find_elements d CLASS_NAME job_locations_class s3 = (Inr job_locations, s4)"
      "driver_find_elements d CLASS_NAME company_names_class s5 = (Inr company_names, s6)" and
    t: "append_texts d job_titles (job_titles_list v) s1 = (Inr titles, s2)" and
    k: "append_links d job_titles (job_links_list v) s2 = (Inr links, s3)" and
    l: "append_texts d job_locations (job_locations_list v) s4 = (Inr locations, s5)" and
    c: "append_texts d company_names (company_names_list v) s6 = (Inr companies, s7)"
    unfolding extract_page_def by (elim andthen_returns)
  from t obtain ts where
    ts: "append_texts d job_titles [] s1 = (Inr ts, s2)" "titles = job_titles_list v @ ts"
    by (subst (asm) append_texts_from_empty) (erule mapped_eq_Inr)
  from k obtain ks where
    ks: "append_links d job_titles [] s2 = (Inr ks, s3)" "links = job_links_list v @ ks"
    by (subst (asm) append_links_from_empty) (erule mapped_eq_Inr)
  from l obtain ls where
    ls: "append_texts d job_locations [] s4 = (Inr ls, s5)" "locations = job_locations_list v @ ls"
    by (subst (asm) append_texts_from_empty) (erule mapped_eq_Inr)
  from c obtain cs where
    cs: "append_texts d company_names [] s6 = (Inr cs, s7)" "companies = company_names_list v @ cs"
    by (subst (asm) append_texts_from_empty) (erule mapped_eq_Inr)
  let ?batch = "\<lparr>job_titles_list = ts, job_links_list = ks, job_locations_list = ls,
      company_names_list = cs, page_number = pn\<rparr>"
  from fin have s7: "s7 = s'" and v': "v' = v\<lparr>job_titles_list := titles, job_links_list := links,
      job_locations_list := locations, company_names_list := companies\<rparr>"
    by (simp_all add: returns_def)
  have "extract_page d (no_records pn) s = (Inr ?batch, s')"
    by (simp add: extract_page_def andthen_def no_records_def returns_def runs ts ks ls cs s7)
  moreover from v' have "v' = appended v ?batch"
    by (simp add: appended_def ts ks ls cs)
  moreover from runs(1) have "fst (find_elements d CLASS_NAME job_titles_class (fst s)) = Inr job_titles"
    unfolding driver_find_elements_def by (rule call_returns)
  moreover from ts(1) have "list_all2 (text_read d) job_titles (job_titles_list ?batch)"
    by (simp add: append_texts_in_order)
  moreover from ks(1) have "list_all2 (link_read d) job_titles (job_links_list ?batch)"
    by (simp add: append_links_in_order)
  ultimately show thesis by (rule that)
qed

lemma scroll_and_extract_batch:
  assumes "scroll_and_extract d v s = (Inr v', s')"
  obtains batch where
    "scroll_and_extract d (no_records pn) s = (Inr batch, s')" and "v' = appended v batch"
proof -
  from assms obtain u s1 u' s2 where
    runs: "print please_wait_msg s = (Inr u, s1)" "scroll_page d s1 = (Inr u', s2)" and
    page: "extract_page d v s2 = (Inr v', s')"
    unfolding scroll_and_extract_def by (elim andthen_returns)
  from page obtain batch where
    batch: "extract_page d (no_records pn) s2 = (Inr batch, s')" "v' = appended v batch"
    by (rule extract_page_batch)
  from runs batch(1) have "scroll_and_extract d (no_records pn) s = (Inr batch, s')"
    by (simp add: scroll_and_extract_def andthen_def)
  from this batch(2) show thesis by (rule that)
qed

lemma appended_fields:
  "job_titles_list (appended v b) = job_titles_list v @ job_titles_list b"
  "job_links_list (appended v b) = job_links_list v @ job_links_list b"
  "job_locations_list (appended v b) = job_locations_list v @ job_locations_list b"
  "company_names_list (appended v b) = company_names_list v @ company_names_list b"
  "page_number (appended v b) = page_number v"
  by (simp_all add: appended_def)

lemma scrape_loop_batches:
  assumes "scrape_loop d is v s = (Inr out, s')"
  shows "job_titles_list out =
           job_titles_list v @ concat (map job_titles_list (page_batches d is (page_number v) s))
       \<and> job_links_list out =
           job_links_list v @ concat (map job_links_list (page_batches d is (page_number v) s))
       \<and> job_locations_list out =
           job_locations_list v
             @ concat (map job_locations_list (page_batches d is (page_number v) s))
       \<and> company_names_list out =
           company_names_list v
             @ concat (map company_names_list (page_batches d is (page_number v) s))"
  using assms
proof (induction "is" arbitrary: v s)
  case Nil
  then show ?case by (simp add: returns_def)
next
  case (Cons i rest)
  from Cons.prems obtain v' s1 cp s2 where
    page: "scroll_and_extract d v s = (Inr v', s1)" and
    turn: "next_page d (page_number v') s1 = (Inr cp, s2)" and
    after: "(case cp of (clicked, pn) \<Rightarrow>
              if clicked then scrape_loop d rest (v'\<lparr>page_number := pn\<rparr>) else returns v') s2
            = (Inr out, s')"
    unfolding scrape_loop.simps by (elim andthen_returns)
  from page obtain batch where
    batch: "scroll_and_extract d (no_records (page_number v)) s = (Inr batch, s1)"
      "v' = appended v batch"
    by (rule scroll_and_extract_batch)
  obtain clicked pn where cp: "cp = (clicked, pn)" by (cases cp)
  from batch(2) have pn_v': "page_number v' = page_number v"
    by (simp add: appended_fields)
  show ?case
  proof (cases clicked)
    case True
    with after cp have "scrape_loop d rest (v'\<lparr>page_number := pn\<rparr>) s2 = (Inr out, s')"
      by simp
    from Cons.IH [OF this] batch turn cp True pn_v' show ?thesis
      by (simp add: appended_fields)
  next
    case False
    with after cp have "out = v'"
      by (simp add: returns_def)
    with batch turn cp False pn_v' show ?thesis
      by (simp add: appended_fields)
  qed
qed

text \<open>
  C8. The lists \<open>scrape_jobs\<close> returns are the batches of the pages it read, one after
  the other in the order of the iterations: every entry of an earlier page stands before
  every entry of a later one. Within an extraction the titles appended are the texts of
  the title nodes, node by node in the order of the query's answer, and the links
  appended are the links found under those nodes, in the same order.
\<close>

theorem records_in_page_order:
  assumes "scrape_jobs d (w, log) = (Inr (Lists t l c k), s')"
    and "pages = page_batches d [1..<5] 2
           (snd (find_element d XPATH no_matching_jobs_xpath w),
            log @ [FindElement XPATH no_matching_jobs_xpath, Print search_begins_msg])"
  shows "t = concat (map job_titles_list pages)
       \<and> l = concat (map job_locations_list pages)
       \<and> c = concat (map company_names_list pages)
       \<and> k = concat (map job_links_list pages)
       \<and> (\<forall>v s0 v' s1. extract_page d v s0 = (Inr v', s1) \<longrightarrow>
            (\<exists>job_titles ts ks.
               fst (find_elements d CLASS_NAME job_titles_class (fst s0)) = Inr job_titles
               \<and> job_titles_list v' = job_titles_list v @ ts
               \<and> job_links_list v' = job_links_list v @ ks
               \<and> list_all2 (text_read d) job_titles ts
               \<and> list_all2 (link_read d) job_titles ks))"
proof -
  obtain r w0 where lookup: "find_element d XPATH no_matching_jobs_xpath w = (r, w0)"
    by (cases "find_element d XPATH no_matching_jobs_xpath w")
  have absent: "r = Inl NoSuchElementException"
  proof (cases r)
    case (Inr h)
    with lookup assms(1) show ?thesis
      by (simp add: scrape_jobs_def except_NoSuchElementException_def andthen_def
          driver_find_element_def print_def returns_def)
  next
    case (Inl e)
    with lookup assms(1) show ?thesis
      by (cases e)
        (simp_all add: scrape_jobs_def except_NoSuchElementException_def andthen_def
          driver_find_element_def)
  qed
  let ?s0 = "(w0, log @ [FindElement XPATH no_matching_jobs_xpath, Print search_begins_msg])"
  from assms(1) lookup absent
  have "andthen (scrape_loop d [1..<5] initial_locals) (\<lambda>v. returns (returned v)) ?s0
          = (Inr (Lists t l c k), s')"
    by (simp add: scrape_jobs_searches)
  then obtain out s2 where
    loop: "scrape_loop d [1..<5] initial_locals ?s0 = (Inr out, s2)" and
    "returns (returned out) s2 = (Inr (Lists t l c k), s')"
    by (rule andthen_returns)
  then have out: "t = job_titles_list out" "l = job_locations_list out"
    "c = company_names_list out" "k = job_links_list out"
    by (simp_all add: returns_def returned_def)
  from scrape_loop_batches [OF loop] assms(2) lookup
  have lists: "t = concat (map job_titles_list pages)"
    "l = concat (map job_locations_list pages)"
    "c = concat (map company_names_list pages)"
    "k = concat (map job_links_list pages)"
    by (simp_all add: out initial_locals_def)
  have order: "\<exists>job_titles ts ks.
      fst (find_elements d CLASS_NAME job_titles_class (fst s0)) = Inr job_titles
      \<and> job_titles_list v' = job_titles_list v @ ts
      \<and> job_links_list v' = job_links_list v @ ks
      \<and> list_all2 (text_read d) job_titles ts
      \<and> list_all2 (link_read d) job_titles ks"
    if "extract_page d v s0 = (Inr v', s1)" for v s0 v' s1
  proof -
    from that obtain batch job_titles where
      "v' = appended v batch"
      "fst (find_elements d CLASS_NAME job_titles_class (fst s0)) = Inr job_titles"
      "list_all2 (text_read d) job_titles (job_titles_list batch)"
      "list_all2 (link_read d) job_titles (job_links_list batch)"
      by (rule extract_page_batch [where pn = 0])
    then show ?thesis
      by (intro exI [of _ job_titles] exI [of _ "job_titles_list batch"]
          exI [of _ "job_links_list batch"]) (simp add: appended_fields)
  qed
  from lists order show ?thesis by blast
qed

theorem records_in_page_order_witness:
  "fst (scrape_jobs (feed_browser two_pages) (1, [])) =
     Inr (Lists [node_text 1000, node_text 1001, node_text 2000, node_text 2001]
                [node_text 1300, node_text 1301, node_text 2300, node_text 2301]
                [node_text 1600, node_text 1601, node_text 2600, node_text 2601]
                [Some (node_href 1500), Some (node_href 1501),
                 Some (node_href 2500), Some (node_href 2501)])
   \<and> map job_titles_list (page_batches (feed_browser two_pages) [1..<5] 2
         (1, [FindElement XPATH no_matching_jobs_xpath, Print search_begins_msg])) =
       [[node_text 1000, node_text 1001], [node_text 2000, node_text 2001]]
   \<and> [node_text 1000, node_text 1001, node_text 2000, node_text 2001] =
       concat (map job_titles_list (page_batches (feed_browser two_pages) [1..<5] 2
         (1, [FindElement XPATH no_matching_jobs_xpath, Print search_begins_msg])))"
proof -
  let ?d = "feed_browser two_pages"
  let ?r = "scrape_jobs ?d (1, [])"
  let ?pages = "page_batches ?d [1..<5] 2
      (snd (find_element ?d XPATH no_matching_jobs_xpath 1),
       [] @ [FindElement XPATH no_matching_jobs_xpath, Print search_begins_msg])"
  have run: "?r = (Inr (Lists [node_text 1000, node_text 1001, node_text 2000, node_text 2001]
                [node_text 1300, node_text 1301, node_text 2300, node_text 2301]
                [node_text 1600, node_text 1601, node_text 2600, node_text 2601]
                [Some (node_href 1500), Some (node_href 1501),
                 Some (node_href 2500), Some (node_href 2501)]), snd ?r)"
    by (simp add: run_simps feed_browser_def two_pages_def)
  have pages: "map job_titles_list ?pages =
      [[node_text 1000, node_text 1001], [node_text 2000, node_text 2001]]"
    "snd (find_element ?d XPATH no_matching_jobs_xpath 1) = 1"
    by (simp_all add: run_simps no_records_def feed_browser_def two_pages_def)
  have start: "?pages = page_batches ?d [1..<5] 2
      (1, [FindElement XPATH no_matching_jobs_xpath, Print search_begins_msg])"
    by (simp only: pages(2) append_Nil)
  have titles: "[node_text 1000, node_text 1001, node_text 2000, node_text 2001]
      = concat (map job_titles_list ?pages)"
    using records_in_page_order [OF run refl] by (rule conjunct1)
  from run have "fst ?r =
      Inr (Lists [node_text 1000, node_text 1001, node_text 2000, node_text 2001]
                [node_text 1300, node_text 1301, node_text 2300, node_text 2301]
                [node_text 1600, node_text 1601, node_text 2600, node_text 2601]
                [Some (node_href 1500), Some (node_href 1501),
                 Some (node_href 2500), Some (node_href 2501)])"
    by (metis fst_conv)
  with pages(1) titles show ?thesis
    unfolding start by (intro conjI)
qed

section \<open>A title without a link\<close>

lemma append_links_append:
  "append_links d (xs @ ys) lst = andthen (append_links d xs lst) (append_links d ys)"
  by (induction xs arbitrary: lst) (simp_all add: returns_andthen andthen_assoc)

lemma scroll_and_extract_after_scroll:
  assumes "andthen (print please_wait_msg) (\<lambda>_. scroll_page d) s0 = (Inr u, s)"
  shows "scroll_and_extract d v s0 = extract_page d v s"
proof -
  have "scroll_and_extract d v =
          andthen (andthen (print please_wait_msg) (\<lambda>_. scroll_page d)) (\<lambda>_. extract_page d v)"
    by (simp add: scroll_and_extract_def andthen_assoc)
  with assms show ?thesis by (simp add: andthen_def)
qed

text \<open>
  C4, as the code has it. The lookup of a title's link stands in no \<^verbatim>\<open>try\<close>. Take any
  iteration a run gets to, scrolled and with its title nodes queried and read. When the
  lookup raises for one title node, after the nodes before it went through, the
  extraction pass raises that exception and so does \<open>scrape_jobs\<close>, in the session the
  lookup left: no entry is appended for the node, the nodes after it are not looked at,
  and no lists are returned. Where an extraction pass does return, every link entry it
  appended belongs to a title node whose lookup found a link.
\<close>

theorem unresolved_link_raises:
  assumes "find_element d XPATH no_matching_jobs_xpath w = (Inl NoSuchElementException, w0)"
    and "loop_reaches d [1..<5] initial_locals
           (w0, log @ [FindElement XPATH no_matching_jobs_xpath, Print search_begins_msg])
           (i # rest) v s0"
    and "andthen (print please_wait_msg) (\<lambda>_. scroll_page d) s0 = (Inr u, s)"
    and "driver_find_elements d CLASS_NAME job_titles_class s
           = (Inr (before @ job_title # after), s1)"
    and "append_texts d (before @ job_title # after) (job_titles_list v) s1 = (Inr titles, s2)"
    and "append_links d before (job_links_list v) s2 = (Inr links, s3)"
    and "elem_text d job_title s3 = (Inr t, s4)"
    and "elem_find_element d job_title LINK_TEXT t s4 = (Inl e, s5)"
  shows "extract_page d v s = (Inl e, s5)
       \<and> scrape_jobs d (w, log) = (Inl e, s5)
       \<and> (\<forall>va sa vb sb. extract_page d va sa = (Inr vb, sb) \<longrightarrow>
            (\<exists>job_titles ks.
               fst (find_elements d CLASS_NAME job_titles_class (fst sa)) = Inr job_titles
               \<and> job_links_list vb = job_links_list va @ ks
               \<and> list_all2 (link_read d) job_titles ks))"
proof (intro conjI allI impI)
  have "append_links d (before @ job_title # after) (job_links_list v) s2 = (Inl e, s5)"
    by (simp add: append_links_append andthen_def assms(6,7,8))
  then show pass: "extract_page d v s = (Inl e, s5)"
    by (simp add: extract_page_def andthen_def assms(4,5))
  with scroll_and_extract_after_scroll [OF assms(3)]
  have "scroll_and_extract d v s0 = (Inl e, s5)"
    by simp
  from loop_raises [OF assms(2) this] show "scrape_jobs d (w, log) = (Inl e, s5)"
    by (simp add: scrape_jobs_searches [OF assms(1)] andthen_def)
next
  fix va sa vb sb
  assume "extract_page d va sa = (Inr vb, sb)"
  then obtain batch job_titles where
    "vb = appended va batch"
    "fst (find_elements d CLASS_NAME job_titles_class (fst sa)) = Inr job_titles"
    "list_all2 (link_read d) job_titles (job_links_list batch)"
    by (rule extract_page_batch [where pn = 0])
  then show "\<exists>job_titles ks.
      fst (find_elements d CLASS_NAME job_titles_class (fst sa)) = Inr job_titles
      \<and> job_links_list vb = job_links_list va @ ks
      \<and> list_all2 (link_read d) job_titles ks"
    by (intro exI [of _ job_titles] exI [of _ "job_links_list batch"])
      (simp add: appended_fields)
qed

theorem unresolved_link_raises_witness:
  "scrape_jobs (feed_browser one_link_missing) (1, []) =
     (Inl NoSuchElementException, snd (scrape_jobs (feed_browser one_link_missing) (1, [])))
   \<and> last (snd (snd (scrape_jobs (feed_browser one_link_missing) (1, []))))
     = ElementFindElement 1002 LINK_TEXT (node_text 1002)"
proof -
  let ?d = "feed_browser one_link_missing"
  let ?s0 = "(1::nat, [] @ [FindElement XPATH no_matching_jobs_xpath, Print search_begins_msg])"
  let ?r0 = "andthen (print please_wait_msg) (\<lambda>_. scroll_page ?d) ?s0"
  let ?r1 = "driver_find_elements ?d CLASS_NAME job_titles_class (snd ?r0)"
  let ?r2 = "append_texts ?d ([1000, 1001] @ 1002 # [1003, 1004])
               (job_titles_list initial_locals) (snd ?r1)"
  let ?r3 = "append_links ?d [1000, 1001] (job_links_list initial_locals) (snd ?r2)"
  let ?r4 = "elem_text ?d 1002 (snd ?r3)"
  let ?r5 = "elem_find_element ?d 1002 LINK_TEXT (node_text 1002) (snd ?r4)"
  have absent: "find_element ?d XPATH no_matching_jobs_xpath 1 = (Inl NoSuchElementException, 1)"
    by (simp add: feed_browser_def strings_differ)
  have start: "loop_reaches ?d [1..<5] initial_locals ?s0 (1 # [2, 3, 4]) initial_locals ?s0"
    by (subst range_1_5 [symmetric]) (rule loop_reaches.first)
  have scrolled: "?r0 = (Inr (), snd ?r0)"
    by (simp add: run_simps feed_browser_def one_link_missing_def)
  have nodes: "?r1 = (Inr ([1000, 1001] @ 1002 # [1003, 1004]), snd ?r1)"
    by (simp add: run_simps feed_browser_def one_link_missing_def)
  have texts: "?r2 = (Inr (projr (fst ?r2)), snd ?r2)"
    by (simp add: run_simps feed_browser_def one_link_missing_def)
  have links: "?r3 = (Inr (projr (fst ?r3)), snd ?r3)"
    by (simp add: run_simps feed_browser_def one_link_missing_def)
  have title: "?r4 = (Inr (node_text 1002), snd ?r4)"
    by (simp add: run_simps feed_browser_def one_link_missing_def)
  have lookup: "?r5 = (Inl NoSuchElementException, snd ?r5)"
    by (simp add: run_simps feed_browser_def one_link_missing_def)
  have final: "last (snd (snd ?r5)) = ElementFindElement 1002 LINK_TEXT (node_text 1002)"
    by (simp add: run_simps feed_browser_def one_link_missing_def)
  from unresolved_link_raises [OF absent start scrolled nodes texts links title lookup]
  have "scrape_jobs ?d (1, []) = (Inl NoSuchElementException, snd ?r5)"
    by (rule conjunct2 [THEN conjunct1])
  with final show ?thesis by simp
qed

text \<open>
  A page with five title nodes whose third has no link under its text: \<open>scrape_jobs\<close>
  ends with the lookup's \<open>NoSuchElementException\<close>, the failed lookup being its last call,
  and returns no record.
\<close>

theorem unresolved_link_no_record:
  "length (title_nodes one_link_missing) = 5
   \<and> fst (scrape_jobs (feed_browser one_link_missing) (1, [])) = Inl NoSuchElementException
   \<and> last (snd (snd (scrape_jobs (feed_browser one_link_missing) (1, []))))
       = ElementFindElement 1002 LINK_TEXT (node_text 1002)"
  by (simp add: run_simps feed_browser_def one_link_missing_def)

section \<open>The scroll gestures\<close>

lemma scroll_loop_gestures:
  assumes "scroll_loop d x is s = (Inr u, s')"
  shows "\<exists>ext. snd s' = snd s @ ext \<and> count_events is_scroll ext = length is"
  using assms
proof (induction "is" arbitrary: s)
  case Nil
  then show ?case by (simp add: returns_def count_events_Nil)
next
  case (Cons i rest)
  obtain w log where s: "s = (w, log)" by (cases s)
  from Cons.prems obtain a s1 where
    gesture: "perform_scroll d x 0 550 s = (Inr a, s1)" and
    after: "andthen (time_sleep d 1) (\<lambda>_. scroll_loop d x rest) s1 = (Inr u, s')"
    unfolding scroll_loop.simps by (rule andthen_returns)
  from gesture have s1: "snd s1 = log @ [ScrollFromOrigin x 0 550]"
    by (auto simp: perform_scroll_def s logged_eq)
  let ?s2 = "(time_passes d 1 (fst s1), snd s1 @ [Sleep 1])"
  from after have "scroll_loop d x rest ?s2 = (Inr u, s')"
    by (simp add: andthen_def time_sleep_def)
  from Cons.IH [OF this] obtain ext where
    ext: "snd s' = snd ?s2 @ ext" "count_events is_scroll ext = length rest"
    by blast
  from ext show ?case
    by (intro exI [of _ "ScrollFromOrigin x 0 550 # Sleep 1 # ext"])
      (simp add: s s1 count_events_def)
qed

lemma scroll_page_gestures:
  assumes "scroll_page d s = (Inr u, s1)"
  shows "count_events is_scroll (new_events s s1) = 6"
proof -
  from assms obtain footer sa where
    found: "driver_find_element d XPATH footer_xpath s = (Inr footer, sa)" and
    scrolled: "scroll_loop d footer [0..<6] sa = (Inr u, s1)"
    unfolding scroll_page_def by (rule andthen_returns)
  obtain w log where s: "s = (w, log)" by (cases s)
  from found s have sa: "snd sa = snd s @ [FindElement XPATH footer_xpath]"
    by (auto simp: driver_find_element_def logged_eq)
  from scroll_loop_gestures [OF scrolled] obtain ext where
    "snd s1 = snd sa @ ext" "count_events is_scroll ext = length [0..<6::nat]"
    by blast
  with sa show ?thesis
    by (simp add: new_events_def count_events_def)
qed

lemma scroll_loop_at_most: "logs_at_most is_scroll (length is) (scroll_loop d x is)"
proof (induction "is")
  case Nil
  show ?case by (simp add: logs_at_most_returns)
next
  case (Cons i rest)
  have "logs_at_most is_scroll (1 + (0 + length rest)) (scroll_loop d x (i # rest))"
    unfolding scroll_loop.simps perform_scroll_def
    by (intro logs_at_most_andthen Cons logs_at_most_mono [OF logs_at_most_call]
        logs_at_most_mono [OF logs_at_most_sleep]) simp_all
  then show ?case by simp
qed

lemma scroll_page_at_most: "logs_at_most is_scroll 6 (scroll_page d)"
proof -
  have "logs_at_most is_scroll (0 + length [0..<6::nat]) (scroll_page d)"
    unfolding scroll_page_def driver_find_element_def
    by (intro logs_at_most_andthen scroll_loop_at_most
        logs_at_most_mono [OF logs_at_most_call]) simp_all
  then show ?thesis by simp
qed

text \<open>
  C9, as the code has it. The scrolling of an iteration, the footer lookup and
  \<^verbatim>\<open>for i in range(6)\<close>, never issues more than six scroll gestures, and issues exactly
  six whenever it returns, whatever the browser and the page are; so do two runs of it
  one straight after the other. A gesture that raises ends the scrolling there.
\<close>

theorem scroll_gestures_fixed:
  "count_events is_scroll (new_events s (snd (scroll_page d s))) \<le> 6
   \<and> (\<forall>u s1. scroll_page d s = (Inr u, s1) \<longrightarrow>
        count_events is_scroll (new_events s s1) = 6
        \<and> count_events is_scroll (new_events s1 (snd (scroll_page d s1))) \<le> 6
        \<and> (\<forall>u' s2. scroll_page d s1 = (Inr u', s2) \<longrightarrow>
             count_events is_scroll (new_events s1 s2) = 6))"
proof -
  have bound: "count_events is_scroll (new_events s' (snd (scroll_page d s'))) \<le> 6" for s'
  proof -
    from scroll_page_at_most [of d] obtain ext where
      "snd (snd (scroll_page d s')) = snd s' @ ext" "count_events is_scroll ext \<le> 6"
      unfolding logs_at_most_def by blast
    then show ?thesis by (simp add: new_events_def)
  qed
  from bound scroll_page_gestures show ?thesis by blast
qed

theorem scroll_gestures_fixed_witness:
  "count_events is_scroll
     (new_events (1, []) (snd (scroll_page (feed_browser one_page) (1, [])))) = 6
   \<and> count_events is_scroll
     (new_events (snd (scroll_page (feed_browser one_page) (1, [])))
        (snd (scroll_page (feed_browser one_page)
               (snd (scroll_page (feed_browser one_page) (1, [])))))) = 6"
proof -
  let ?d = "feed_browser one_page"
  let ?r1 = "scroll_page ?d (1, [])"
  let ?r2 = "scroll_page ?d (snd ?r1)"
  have once: "?r1 = (Inr (), snd ?r1)"
    by (simp add: run_simps feed_browser_def)
  have twice: "?r2 = (Inr (), snd ?r2)"
    by (simp add: run_simps feed_browser_def)
  from scroll_gestures_fixed [of "(1, [])" ?d] once twice show ?thesis
    by blast
qed

text \<open>
  A browser on which every scroll gesture fails: two runs of the scrolling, one straight
  after the other in the same state, each end with the exception of their first gesture,
  having issued that one gesture and not six.
\<close>

theorem failed_gesture_ends_scrolling:
  "scroll_page scroll_fails_browser ((), []) =
     (Inl WebDriverException, ((), [FindElement XPATH footer_xpath, ScrollFromOrigin 1 0 550]))
   \<and> count_events is_scroll
       (new_events ((), []) (snd (scroll_page scroll_fails_browser ((), [])))) = 1
   \<and> count_events is_scroll
       (new_events (snd (scroll_page scroll_fails_browser ((), [])))
          (snd (scroll_page scroll_fails_browser
                 (snd (scroll_page scroll_fails_browser ((), [])))))) = 1"
  by (simp add: run_simps log_simps scroll_fails_browser_def)

section \<open>Lists of different lengths\<close>

lemma rows_of_equal_lists:
  assumes "length l = length t" "length c = length t" "length k = length t"
  shows "map (\<lambda>i. [map Some t ! i, map Some l ! i, map Some c ! i, k ! i]) [0..<length t]
       = map (\<lambda>i. [Some (t ! i), Some (l ! i), Some (c ! i), k ! i]) [0..<length t]"
  using assms by (intro map_cong refl) simp

text \<open>
  C6, as the code has it. Take the four lists \<open>scrape_jobs\<close> returns, of whatever
  lengths, and a run of the main cell in which \<^verbatim>\<open>os.makedirs\<close> makes the folder. When
  the lists have the same length, \<open>export_to_csv\<close> hands \<open>to_csv\<close> one row per position.
  When they do not, it raises the \<open>ValueError\<close> of the \<open>DataFrame\<close> constructor and
  leaves the disk as \<^verbatim>\<open>os.makedirs\<close> left it: nothing is cut to the shortest list and no
  file is written.
\<close>

theorem export_needs_equal_lengths:
  assumes "scrape_jobs d s = (Inr (Lists t l c k), s')"
    and "os_makedirs fs ''Jobs/'' f = (Inr (), f1)"
  shows "scrape_and_export d fs job_search_domain (s, f) =
     (if length l = length t \<and> length c = length t \<and> length k = length t
      then (fst (to_csv fs (os_path_join ''Jobs/'' (job_search_domain @ '' Jobs.csv''))
                  \<lparr>columns = [''Job Title'', ''Location'', ''Company'', ''Link''],
                   rows = map (\<lambda>i. [Some (t ! i), Some (l ! i), Some (c ! i), k ! i])
                            [0..<length t]\<rparr> f1),
            s',
            snd (to_csv fs (os_path_join ''Jobs/'' (job_search_domain @ '' Jobs.csv''))
                  \<lparr>columns = [''Job Title'', ''Location'', ''Company'', ''Link''],
                   rows = map (\<lambda>i. [Some (t ! i), Some (l ! i), Some (c ! i), k ! i])
                            [0..<length t]\<rparr> f1))
      else (Inl ValueError, s', f1))"
proof (cases "length l = length t \<and> length c = length t \<and> length k = length t")
  case True
  then show ?thesis
    by (simp add: scrape_and_export_def export_to_csv_def DataFrame_def assms
        rows_of_equal_lists)
next
  case False
  then show ?thesis
    by (auto simp: scrape_and_export_def export_to_csv_def DataFrame_def assms)
qed


theorem export_needs_equal_lengths_witness:
  "scrape_and_export (feed_browser company_missing) disk_ops ''ML'' ((1, []), empty_disk) =
     (Inl ValueError, snd (scrape_jobs (feed_browser company_missing) (1, [])),
      \<lparr>folders = [''Jobs/''], files = []\<rparr>)
   \<and> scrape_and_export (feed_browser one_page) disk_ops ''ML'' ((1, []), empty_disk) =
     (Inr (), snd (scrape_jobs (feed_browser one_page) (1, [])),
      \<lparr>folders = [''Jobs/''],
       files = [(''Jobs/ML Jobs.csv'',
                 \<lparr>columns = [''Job Title'', ''Location'', ''Company'', ''Link''],
                  rows = [[Some (node_text 1000), Some (node_text 1300), Some (node_text 1600),
                           Some (node_href 1500)],
                          [Some (node_text 1001), Some (node_text 1301), Some (node_text 1601),
                           Some (node_href 1501)]]\<rparr>)]\<rparr>)
   \<and> scrape_and_export (feed_browser one_page) disk_ops ''AI/ML'' ((1, []), empty_disk) =
     (Inl OSError, snd (scrape_jobs (feed_browser one_page) (1, [])),
      \<lparr>folders = [''Jobs/''], files = []\<rparr>)"
proof -
  let ?m = "scrape_jobs (feed_browser company_missing) (1, [])"
  let ?o = "scrape_jobs (feed_browser one_page) (1, [])"
  have made: "os_makedirs disk_ops ''Jobs/'' empty_disk = (Inr (), \<lparr>folders = [''Jobs/''], files = []\<rparr>)"
    by (simp add: disk_ops_def empty_disk_def)
  have missing: "?m = (Inr (Lists [node_text 1000, node_text 1001] [node_text 1300, node_text 1301]
                [node_text 1600] [Some (node_href 1500), Some (node_href 1501)]), snd ?m)"
    by (simp add: run_simps feed_browser_def company_missing_def)
  have whole: "?o = (Inr (Lists [node_text 1000, node_text 1001] [node_text 1300, node_text 1301]
                [node_text 1600, node_text 1601]
                [Some (node_href 1500), Some (node_href 1501)]), snd ?o)"
    by (simp add: run_simps feed_browser_def one_page_def)
  from export_needs_equal_lengths [OF missing made, of "''ML''"]
    export_needs_equal_lengths [OF whole made, of "''ML''"]
    export_needs_equal_lengths [OF whole made, of "''AI/ML''"]
  show ?thesis
    by (simp add: os_path_join_def dirname_def disk_ops_def upt_rec)
qed

text \<open>
  A page with two titles and one company name: \<open>scrape_jobs\<close> returns lists of lengths
  2, 2, 1 and 2, and exporting them raises \<open>ValueError\<close>; no row is formed and no file
  is written.
\<close>

theorem mismatched_lists_not_exported:
  "fst (scrape_jobs (feed_browser company_missing) (1, [])) =
     Inr (Lists [node_text 1000, node_text 1001] [node_text 1300, node_text 1301]
                [node_text 1600] [Some (node_href 1500), Some (node_href 1501)])
   \<and> fst (scrape_and_export (feed_browser company_missing) disk_ops ''ML''
            ((1, []), empty_disk)) = Inl ValueError
   \<and> files (snd (snd (scrape_and_export (feed_browser company_missing) disk_ops ''ML''
            ((1, []), empty_disk)))) = []"
  by (simp add: disk_simps run_simps feed_browser_def company_missing_def)

section \<open>What the caller gets\<close>

text \<open>
  C10. When the lookup of the ``no matching jobs'' heading finds an element,
  \<open>scrape_jobs\<close> returns \<open>None\<close>, and the main cell's call
  \<^verbatim>\<open>export_to_csv(job_search_domain, *information)\<close> raises \<open>TypeError\<close> without
  touching the disk. The tuple of four lists is returned only in a session whose lookup
  raised \<open>NoSuchElementException\<close>.
\<close>

theorem none_when_heading_found:
  "(\<forall>h w'. find_element d XPATH no_matching_jobs_xpath w = (Inr h, w') \<longrightarrow>
      fst (scrape_jobs d (w, log)) = Inr PyNone
      \<and> fst (scrape_and_export d fs job_search_domain ((w, log), f)) = Inl TypeError
      \<and> snd (snd (scrape_and_export d fs job_search_domain ((w, log), f))) = f)
   \<and> (\<forall>t l c k. fst (scrape_jobs d (w, log)) = Inr (Lists t l c k) \<longrightarrow>
        fst (find_element d XPATH no_matching_jobs_xpath w) = Inl NoSuchElementException)"
proof (intro conjI allI impI)
  fix h w'
  assume found: "find_element d XPATH no_matching_jobs_xpath w = (Inr h, w')"
  then have run: "scrape_jobs d (w, log) =
      (Inr PyNone, (w', log @ [FindElement XPATH no_matching_jobs_xpath,
                                Print no_matching_jobs_msg]))"
    by (simp add: scrape_jobs_def except_NoSuchElementException_def andthen_def
        driver_find_element_def print_def returns_def)
  then show "fst (scrape_jobs d (w, log)) = Inr PyNone"
    by simp
  from run show "fst (scrape_and_export d fs job_search_domain ((w, log), f)) = Inl TypeError"
    by (simp add: scrape_and_export_def)
  from run show "snd (snd (scrape_and_export d fs job_search_domain ((w, log), f))) = f"
    by (simp add: scrape_and_export_def)
next
  fix t l c k
  assume lists: "fst (scrape_jobs d (w, log)) = Inr (Lists t l c k)"
  obtain r w' where lookup: "find_element d XPATH no_matching_jobs_xpath w = (r, w')"
    by (cases "find_element d XPATH no_matching_jobs_xpath w")
  show "fst (find_element d XPATH no_matching_jobs_xpath w) = Inl NoSuchElementException"
  proof (cases r)
    case (Inr h)
    with lookup lists show ?thesis
      by (simp add: scrape_jobs_def except_NoSuchElementException_def andthen_def
          driver_find_element_def print_def returns_def)
  next
    case (Inl e)
    with lookup lists show ?thesis
      by (cases e)
        (simp_all add: scrape_jobs_def except_NoSuchElementException_def andthen_def
          driver_find_element_def)
  qed
qed

theorem none_when_heading_found_witness:
  "fst (scrape_jobs no_results_browser ((), [])) = Inr PyNone
   \<and> fst (scrape_and_export no_results_browser disk_ops ''ML'' (((), []), empty_disk))
       = Inl TypeError
   \<and> snd (snd (scrape_and_export no_results_browser disk_ops ''ML'' (((), []), empty_disk)))
       = empty_disk"
proof -
  have "find_element no_results_browser XPATH no_matching_jobs_xpath () = (Inr 7, ())"
    by (simp add: no_results_browser_def)
  with none_when_heading_found [of no_results_browser "()" "[]" disk_ops "''ML''" empty_disk]
  show ?thesis by blast
qed

end
